theory Spec2Isabelle
  imports Complex_Main
begin

section \<open>Dictionary keys (xequinet/utils/keys.py)\<close>

definition POSITIONS :: string where "POSITIONS = ''pos''"
definition EDGE_INDEX :: string where "EDGE_INDEX = ''edge_index''"
definition CELL_OFFSETS :: string where "CELL_OFFSETS = ''cell_offsets''"
definition CELL :: string where "CELL = ''cell''"
definition BATCH :: string where "BATCH = ''batch''"
definition BATCH_PTR :: string where "BATCH_PTR = ''ptr''"
definition EDGE_LENGTH :: string where "EDGE_LENGTH = ''edge_length''"
definition EDGE_VECTOR :: string where "EDGE_VECTOR = ''edge_vector''"
definition STRAIN :: string where "STRAIN = ''strain''"
definition TOTAL_ENERGY :: string where "TOTAL_ENERGY = ''energy''"
definition FORCES :: string where "FORCES = ''forces''"
definition VIRIAL :: string where "VIRIAL = ''virial''"

lemmas keys_defs =
  POSITIONS_def EDGE_INDEX_def CELL_OFFSETS_def CELL_def BATCH_def BATCH_PTR_def
  EDGE_LENGTH_def EDGE_VECTOR_def STRAIN_def TOTAL_ENERGY_def FORCES_def VIRIAL_def

section \<open>Tensor values\<close>

text \<open>
  Floating-point scalars are idealised as exact reals. A tensor value is one of the
  shapes the pipeline handles: \<open>(n,)\<close> and \<open>(n,3)\<close> and \<open>(n,3,3)\<close> floating
  tensors, \<open>(n,)\<close> integer tensors, and the \<open>(2,E)\<close> integer \<open>edge_index\<close>,
  stored column by column as (center, neighbor) pairs. A 3x3 matrix is the triple of
  its rows.
\<close>

type_synonym vec3 = "real \<times> real \<times> real"
type_synonym mat3 = "vec3 \<times> vec3 \<times> vec3"

datatype tdata =
    Nums "real list"
  | Vecs "vec3 list"
  | Mats "mat3 list"
  | Longs "int list"
  | Edges "(int \<times> int) list"

datatype error = KeyError string | IndexError | ValueError | RuntimeError

definition ebind :: "error + 'a \<Rightarrow> ('a \<Rightarrow> error + 'b) \<Rightarrow> error + 'b" where
  "ebind m f = (case m of Inl e \<Rightarrow> Inl e | Inr x \<Rightarrow> f x)"

subsection \<open>Arithmetic on 3-vectors and 3x3 matrices\<close>

fun vadd :: "vec3 \<Rightarrow> vec3 \<Rightarrow> vec3" where
  "vadd (a, b, c) (x, y, z) = (a + x, b + y, c + z)"

fun vsub :: "vec3 \<Rightarrow> vec3 \<Rightarrow> vec3" where
  "vsub (a, b, c) (x, y, z) = (a - x, b - y, c - z)"

fun vscale :: "real \<Rightarrow> vec3 \<Rightarrow> vec3" where
  "vscale k (x, y, z) = (k * x, k * y, k * z)"

definition vzero :: vec3 where
  "vzero = (0, 0, 0)"

text \<open>\<open>torch.linalg.norm(v, dim=-1)\<close>: the Euclidean norm of each row.\<close>

fun vnorm :: "vec3 \<Rightarrow> real" where
  "vnorm (x, y, z) = sqrt (x * x + y * y + z * z)"

text \<open>Row vector times matrix: \<open>(v \<cdot> M)[j] = \<Sum>i. v[i] * M[i][j]\<close>.\<close>

fun vmat :: "vec3 \<Rightarrow> mat3 \<Rightarrow> vec3" where
  "vmat (x, y, z) (r0, r1, r2) = vadd (vscale x r0) (vadd (vscale y r1) (vscale z r2))"

fun madd :: "mat3 \<Rightarrow> mat3 \<Rightarrow> mat3" where
  "madd (a, b, c) (x, y, z) = (vadd a x, vadd b y, vadd c z)"

fun mscale :: "real \<Rightarrow> mat3 \<Rightarrow> mat3" where
  "mscale k (a, b, c) = (vscale k a, vscale k b, vscale k c)"

fun mtranspose :: "mat3 \<Rightarrow> mat3" where
  "mtranspose ((a, b, c), (d, e, f), (g, h, i)) = ((a, d, g), (b, e, h), (c, f, i))"

fun mmul :: "mat3 \<Rightarrow> mat3 \<Rightarrow> mat3" where
  "mmul (a, b, c) m = (vmat a m, vmat b m, vmat c m)"

definition mzero :: mat3 where
  "mzero = (vzero, vzero, vzero)"

subsection \<open>Whole-tensor operations\<close>

fun is_floating :: "tdata \<Rightarrow> bool" where
  "is_floating (Nums xs) = True"
| "is_floating (Vecs vs) = True"
| "is_floating (Mats ms) = True"
| "is_floating (Longs is) = False"
| "is_floating (Edges es) = False"

fun numel :: "tdata \<Rightarrow> nat" where
  "numel (Nums xs) = length xs"
| "numel (Vecs vs) = 3 * length vs"
| "numel (Mats ms) = 9 * length ms"
| "numel (Longs is) = length is"
| "numel (Edges es) = 2 * length es"

fun zeros_like :: "tdata \<Rightarrow> tdata" where
  "zeros_like (Nums xs) = Nums (replicate (length xs) 0)"
| "zeros_like (Vecs vs) = Vecs (replicate (length vs) vzero)"
| "zeros_like (Mats ms) = Mats (replicate (length ms) mzero)"
| "zeros_like (Longs is) = Longs (replicate (length is) 0)"
| "zeros_like (Edges es) = Edges (replicate (length es) (0, 0))"

fun ones_like :: "tdata \<Rightarrow> tdata" where
  "ones_like (Nums xs) = Nums (replicate (length xs) 1)"
| "ones_like (Vecs vs) = Vecs (replicate (length vs) (1, 1, 1))"
| "ones_like (Mats ms) = Mats (replicate (length ms) ((1, 1, 1), (1, 1, 1), (1, 1, 1)))"
| "ones_like (Longs is) = Longs (replicate (length is) 1)"
| "ones_like (Edges es) = Edges (replicate (length es) (1, 1))"

text \<open>
  \<open>c * t\<close> for a Python float \<open>c\<close>. An integer vector is promoted to a floating one.
  The \<open>(2,E)\<close> integer tensor has no floating counterpart among the shapes above and
  is left as it is; the property engine never scales one, because differentiation
  rejects integer tensors first.
\<close>

fun tscale :: "real \<Rightarrow> tdata \<Rightarrow> tdata" where
  "tscale k (Nums xs) = Nums (map (\<lambda>x. k * x) xs)"
| "tscale k (Vecs vs) = Vecs (map (vscale k) vs)"
| "tscale k (Mats ms) = Mats (map (mscale k) ms)"
| "tscale k (Longs is) = Nums (map (\<lambda>i. k * of_int i) is)"
| "tscale k (Edges es) = Edges es"

text \<open>
  Elementwise sum of two gradient contributions of one shape. Contributions to the
  gradient of one input always have that input's shape; on operands of different
  kinds the left one is returned.
\<close>

fun tadd :: "tdata \<Rightarrow> tdata \<Rightarrow> tdata" where
  "tadd (Nums xs) (Nums ys) = Nums (map2 (+) xs ys)"
| "tadd (Vecs us) (Vecs vs) = Vecs (map2 vadd us vs)"
| "tadd (Mats ms) (Mats ns) = Mats (map2 madd ms ns)"
| "tadd s t = s"

text \<open>The entries of a floating tensor in row-major order.\<close>

fun flat :: "tdata \<Rightarrow> real list" where
  "flat (Nums xs) = xs"
| "flat (Vecs vs) = concat (map (\<lambda>(x, y, z). [x, y, z]) vs)"
| "flat (Mats ms) =
     concat (map (\<lambda>((a, b, c), (d, e, f), (g, h, i)). [a, b, c, d, e, f, g, h, i]) ms)"
| "flat (Longs is) = map of_int is"
| "flat (Edges es) = map of_int (map fst es @ map snd es)"

section \<open>Reverse-mode differentiation (torch.autograd.grad)\<close>

text \<open>
  The pipeline differentiates the energy with respect to two tensor objects only: the
  positions tensor of the batch and the strain tensor made by edge preparation.
  The autograd graph hanging off the energy tensor is abstracted to what
  \<open>torch.autograd.grad\<close> reads from it: for each of the two leaves, either the graph
  does not reach the leaf (\<open>None\<close>), or it does and yields, for every entry
  \<open>energy[s]\<close>, the derivative of that entry with respect to the leaf, a tensor of the
  leaf's shape (\<open>Some rows\<close>, one row per entry of the energy).
\<close>

datatype leaf = PosLeaf | StrainLeaf

type_synonym tape = "leaf \<Rightarrow> tdata list option"

text \<open>
  The vector-Jacobian product: the cotangent \<open>w\<close> of the output weights the rows,
  and the weighted rows are accumulated onto zeros of the input's shape.
\<close>

definition vjp :: "real list \<Rightarrow> tdata list \<Rightarrow> tdata \<Rightarrow> tdata" where
  "vjp w rows x = foldr (\<lambda>(c, r) acc. tadd (tscale c r) acc) (zip w rows) (zeros_like x)"

text \<open>
  One result per input, in order. An input the graph does not reach is an error
  unless \<open>allow_unused\<close> is set, in which case its result is \<open>None\<close>.
\<close>

fun grad_inputs :: "tape \<Rightarrow> real list \<Rightarrow> bool \<Rightarrow> (leaf \<times> tdata) list
    \<Rightarrow> error + tdata option list" where
  "grad_inputs g w allow_unused [] = Inr []"
| "grad_inputs g w allow_unused ((l, x) # inputs) =
     (case g l of
        None \<Rightarrow>
          if allow_unused
          then map_sum id (Cons None) (grad_inputs g w allow_unused inputs)
          else Inl RuntimeError
      | Some rows \<Rightarrow>
          map_sum id (Cons (Some (vjp w rows x))) (grad_inputs g w allow_unused inputs))"

text \<open>
  \<open>torch.autograd.grad(outputs=[energy], inputs=inputs, grad_outputs=[w],
  retain_graph, create_graph, allow_unused)\<close> with its one output \<open>energy\<close>, whose
  graph is \<open>g\<close>. Integer tensors cannot take part in differentiation, and the
  cotangent must have the output's shape. \<open>retain_graph\<close> and \<open>create_graph\<close> decide
  whether the graph survives the call and whether the results are differentiable
  again; neither changes the values returned.
\<close>

definition autograd_grad :: "tape \<Rightarrow> tdata \<Rightarrow> (leaf \<times> tdata) list \<Rightarrow> tdata
    \<Rightarrow> bool \<Rightarrow> bool \<Rightarrow> bool \<Rightarrow> error + tdata option list" where
  "autograd_grad g energy inputs w retain_graph create_graph allow_unused =
     (if is_floating energy \<and> list_all (\<lambda>(l, x). is_floating x) inputs
         \<and> zeros_like w = zeros_like energy
      then grad_inputs g (flat w) allow_unused inputs
      else Inl RuntimeError)"

section \<open>Gradient-derived properties (xequinet/nn/basic.py)\<close>

definition compute_forces_only :: "tape \<Rightarrow> tdata \<Rightarrow> tdata \<Rightarrow> bool \<Rightarrow> error + tdata" where
  "compute_forces_only g energy pos training =
     (let grad_outputs = ones_like energy in
      case autograd_grad g energy [(PosLeaf, pos)] grad_outputs training training False of
        Inl e \<Rightarrow> Inl e
      | Inr [] \<Rightarrow> Inl IndexError
      | Inr (pos_grad # rest) \<Rightarrow>
          (let pos_grad = (case pos_grad of None \<Rightarrow> zeros_like pos | Some gr \<Rightarrow> gr)
           in Inr (tscale (- 1) pos_grad)))"

definition compute_virial_only :: "tape \<Rightarrow> tdata \<Rightarrow> tdata \<Rightarrow> bool \<Rightarrow> error + tdata" where
  "compute_virial_only g energy strain training =
     (let grad_outputs = ones_like energy in
      case autograd_grad g energy [(StrainLeaf, strain)] grad_outputs training training False of
        Inl e \<Rightarrow> Inl e
      | Inr [] \<Rightarrow> Inl IndexError
      | Inr (strain_grad # rest) \<Rightarrow>
          (let strain_grad = (case strain_grad of None \<Rightarrow> zeros_like strain | Some gr \<Rightarrow> gr)
           in Inr (tscale (- 1) strain_grad)))"

definition compute_forces_and_virial :: "tape \<Rightarrow> tdata \<Rightarrow> tdata \<Rightarrow> tdata \<Rightarrow> bool
    \<Rightarrow> error + tdata \<times> tdata" where
  "compute_forces_and_virial g energy pos strain training =
     (let grad_outputs = ones_like energy in
      case autograd_grad g energy [(PosLeaf, pos), (StrainLeaf, strain)] grad_outputs
             training training False of
        Inl e \<Rightarrow> Inl e
      | Inr [pos_grad, strain_grad] \<Rightarrow>
          (let pos_grad = (case pos_grad of None \<Rightarrow> zeros_like pos | Some gr \<Rightarrow> gr);
               strain_grad = (case strain_grad of None \<Rightarrow> zeros_like strain | Some gr \<Rightarrow> gr)
           in Inr (tscale (- 1) pos_grad, tscale (- 1) strain_grad))
      | Inr other \<Rightarrow> Inl ValueError)"

text \<open>
  The batch dictionary \<open>data: Dict[str, Tensor]\<close>: the values stored under the keys,
  and the autograd graph of the tensor stored under \<open>energy\<close>.
\<close>

record data =
  tensors :: "string \<rightharpoonup> tdata"
  graph :: tape

text \<open>\<open>data[k]\<close>, a KeyError when the key is missing.\<close>

definition lookup :: "(string \<rightharpoonup> tdata) \<Rightarrow> string \<Rightarrow> error + tdata" where
  "lookup d k = (case d k of None \<Rightarrow> Inl (KeyError k) | Some v \<Rightarrow> Inr v)"

text \<open>\<open>{k: data[k] for k in extra_properties}\<close>, evaluated key by key.\<close>

fun gather :: "(string \<rightharpoonup> tdata) \<Rightarrow> string list \<Rightarrow> error + (string \<times> tdata) list" where
  "gather d [] = Inr []"
| "gather d (k # ks) =
     (case d k of
        None \<Rightarrow> Inl (KeyError k)
      | Some v \<Rightarrow> map_sum id (Cons (k, v)) (gather d ks))"

text \<open>\<open>results.update(kvs)\<close>: the pairs are stored one after the other.\<close>

definition update_all :: "(string \<rightharpoonup> tdata) \<Rightarrow> (string \<times> tdata) list \<Rightarrow> (string \<rightharpoonup> tdata)" where
  "update_all results kvs = fold (\<lambda>(k, v) m. m(k \<mapsto> v)) kvs results"

definition compute_properties :: "data \<Rightarrow> bool \<Rightarrow> bool \<Rightarrow> bool \<Rightarrow> string list option
    \<Rightarrow> error + (string \<rightharpoonup> tdata)" where
  "compute_properties d compute_forces compute_virial training extra_properties =
     ebind
       (if compute_forces \<and> compute_virial then
          ebind (lookup (tensors d) TOTAL_ENERGY) (\<lambda>energy.
          ebind (lookup (tensors d) POSITIONS) (\<lambda>pos.
          ebind (lookup (tensors d) STRAIN) (\<lambda>strain.
          ebind (compute_forces_and_virial (graph d) energy pos strain training)
            (\<lambda>(forces, virial). Inr [FORCES \<mapsto> forces, VIRIAL \<mapsto> virial]))))
        else if compute_forces then
          ebind (lookup (tensors d) TOTAL_ENERGY) (\<lambda>energy.
          ebind (lookup (tensors d) POSITIONS) (\<lambda>pos.
          ebind (compute_forces_only (graph d) energy pos training)
            (\<lambda>forces. Inr [FORCES \<mapsto> forces])))
        else if compute_virial then
          ebind (lookup (tensors d) TOTAL_ENERGY) (\<lambda>energy.
          ebind (lookup (tensors d) STRAIN) (\<lambda>strain.
          ebind (compute_virial_only (graph d) energy strain training)
            (\<lambda>virial. Inr [VIRIAL \<mapsto> virial])))
        else Inr Map.empty)
       (\<lambda>results.
          case extra_properties of
            None \<Rightarrow> Inr results
          | Some ks \<Rightarrow> ebind (gather (tensors d) ks) (\<lambda>kvs. Inr (update_all results kvs)))"

section \<open>Edge preparation (xequinet/nn/basic.py, compute_edge_data)\<close>

text \<open>
  A field is read at the kind its use expects; a field of another kind is not among
  the inputs followed here and is rejected.
\<close>

definition as_vecs :: "tdata \<Rightarrow> error + vec3 list" where
  "as_vecs t = (case t of Vecs vs \<Rightarrow> Inr vs | _ \<Rightarrow> Inl RuntimeError)"

definition as_mats :: "tdata \<Rightarrow> error + mat3 list" where
  "as_mats t = (case t of Mats ms \<Rightarrow> Inr ms | _ \<Rightarrow> Inl RuntimeError)"

definition as_longs :: "tdata \<Rightarrow> error + int list" where
  "as_longs t = (case t of Longs is \<Rightarrow> Inr is | _ \<Rightarrow> Inl RuntimeError)"

definition as_edges :: "tdata \<Rightarrow> error + (int \<times> int) list" where
  "as_edges t = (case t of Edges es \<Rightarrow> Inr es | _ \<Rightarrow> Inl RuntimeError)"

text \<open>
  \<open>torch.index_select(xs, 0, idx)\<close>: every index must lie in \<open>[0, len(xs))\<close>;
  negative indices are not wrapped.
\<close>

definition index_select :: "'a list \<Rightarrow> int list \<Rightarrow> error + 'a list" where
  "index_select xs idx =
     (if list_all (\<lambda>i. 0 \<le> i \<and> i < int (length xs)) idx
      then Inr (map (\<lambda>i. xs ! nat i) idx)
      else Inl IndexError)"

text \<open>
  A binary operation along the leading dimension under torch's broadcasting rule: the
  two lengths agree, or one of them is 1 and its only row is paired with every row of
  the other.
\<close>

definition broadcast2 :: "('a \<Rightarrow> 'b \<Rightarrow> 'c) \<Rightarrow> 'a list \<Rightarrow> 'b list \<Rightarrow> error + 'c list" where
  "broadcast2 f xs ys =
     (if length xs = length ys then Inr (map2 f xs ys)
      else if length xs = 1 then Inr (map (f (hd xs)) ys)
      else if length ys = 1 then Inr (map (\<lambda>x. f x (hd ys)) xs)
      else Inl RuntimeError)"

text \<open>\<open>torch.bmm\<close>: the batch dimensions must agree exactly.\<close>

definition bmm :: "('a \<Rightarrow> 'b \<Rightarrow> 'c) \<Rightarrow> 'a list \<Rightarrow> 'b list \<Rightarrow> error + 'c list" where
  "bmm f xs ys = (if length xs = length ys then Inr (map2 f xs ys) else Inl RuntimeError)"

text \<open>
  Lines 69-79: a batch without the key \<open>batch\<close> is one structure and gets its
  \<open>batch\<close> and \<open>ptr\<close> fields; otherwise it is one structure when the largest entry of
  \<open>batch\<close> is 0 (\<open>max()\<close> of an empty tensor raises).
\<close>

definition ensure_batch :: "(string \<rightharpoonup> tdata) \<Rightarrow> nat \<Rightarrow> error + (string \<rightharpoonup> tdata) \<times> bool" where
  "ensure_batch d n =
     (case d BATCH of
        None \<Rightarrow>
          Inr (d(BATCH \<mapsto> Longs (replicate n 0), BATCH_PTR \<mapsto> Longs [0, int n]), True)
      | Some b \<Rightarrow>
          ebind (as_longs b) (\<lambda>bs.
            if bs = [] then Inl RuntimeError else Inr (d, Max (set bs) = 0)))"

text \<open>\<open>0.5 * (strain + strain.transpose(1, 2))\<close>, matrix by matrix.\<close>

definition symmetrize :: "mat3 \<Rightarrow> mat3" where
  "symmetrize s = mscale (1 / 2) (madd s (mtranspose s))"

text \<open>
  Lines 101-107, the body of \<open>if compute_virial\<close>, as a function of the strain
  tensor: the deformed positions and the deformed cell.
\<close>

definition apply_strain :: "mat3 list \<Rightarrow> int list \<Rightarrow> vec3 list \<Rightarrow> bool \<Rightarrow> mat3 list
    \<Rightarrow> error + vec3 list \<times> mat3 list" where
  "apply_strain strain batch pos has_cell cell =
     (let symm_strain = map symmetrize strain in
      ebind (index_select symm_strain batch) (\<lambda>expanded_strain.
      ebind (bmm vmat pos expanded_strain) (\<lambda>moved.
        let pos = map2 vadd pos moved in
        if has_cell
        then ebind (bmm mmul cell symm_strain) (\<lambda>grown. Inr (pos, map2 madd cell grown))
        else Inr (pos, cell))))"

text \<open>
  Lines 119-128: the periodic shifts. For one structure the single cell is
  contracted with every offset (\<open>cell.squeeze(0)\<close> is a matrix only when there is
  exactly one cell); otherwise the cell of the neighbor's structure is gathered for
  every edge first.
\<close>

definition periodic_shift :: "(string \<rightharpoonup> tdata) \<Rightarrow> bool \<Rightarrow> int list \<Rightarrow> mat3 list \<Rightarrow> int list
    \<Rightarrow> vec3 list \<Rightarrow> error + vec3 list" where
  "periodic_shift d single_graph batch cell neighbor_idx vectors =
     ebind (lookup d CELL_OFFSETS) (\<lambda>t.
     ebind (as_vecs t) (\<lambda>cell_offsets.
       if single_graph then
         (case cell of
            [c] \<Rightarrow> broadcast2 vsub vectors (map (\<lambda>off. vmat off c) cell_offsets)
          | _ \<Rightarrow> Inl RuntimeError)
       else
         ebind (index_select batch neighbor_idx) (\<lambda>batch_neighbor.
         ebind (index_select cell batch_neighbor) (\<lambda>cell_batch.
         ebind (broadcast2 vmat cell_offsets cell_batch) (\<lambda>shifts.
         broadcast2 vsub vectors shifts)))))"

text \<open>
  Lines 109-128: the displacement of every edge, \<open>pos[center] - pos[neighbor]\<close>,
  less the periodic shift when the batch has a cell.
\<close>

definition edge_vectors :: "(string \<rightharpoonup> tdata) \<Rightarrow> bool \<Rightarrow> int list \<Rightarrow> vec3 list \<Rightarrow> bool
    \<Rightarrow> mat3 list \<Rightarrow> (int \<times> int) list \<Rightarrow> error + vec3 list" where
  "edge_vectors d single_graph batch pos has_cell cell edge_index =
     (let center_idx = map fst edge_index;
          neighbor_idx = map snd edge_index
      in
      ebind (index_select pos center_idx) (\<lambda>at_center.
      ebind (index_select pos neighbor_idx) (\<lambda>at_neighbor.
        let vectors = map2 vsub at_center at_neighbor in
        if has_cell
        then periodic_shift d single_graph batch cell neighbor_idx vectors
        else Inr vectors)))"

text \<open>
  \<open>compute_edge_data\<close>. \<open>pos.requires_grad_()\<close> and \<open>strain.requires_grad_()\<close>
  change no value. The strain tensor is a new object, so whatever graph the batch
  carried does not reach it. The deformed positions and cell are locals: only
  \<open>edge_length\<close>, \<open>edge_vector\<close> and \<open>strain\<close> are stored.
\<close>

definition compute_edge_data :: "data \<Rightarrow> bool \<Rightarrow> bool \<Rightarrow> error + data" where
  "compute_edge_data d compute_forces compute_virial =
     ebind (lookup (tensors d) POSITIONS) (\<lambda>pos_t.
     ebind (as_vecs pos_t) (\<lambda>pos.
     ebind (lookup (tensors d) EDGE_INDEX) (\<lambda>edge_index_t.
     ebind (as_edges edge_index_t) (\<lambda>edge_index.
     ebind (ensure_batch (tensors d) (length pos)) (\<lambda>(d1, single_graph).
     ebind (lookup d1 BATCH) (\<lambda>batch_t.
     ebind (as_longs batch_t) (\<lambda>batch.
     ebind (lookup d1 BATCH_PTR) (\<lambda>ptr.
       if numel ptr = 0 then Inl RuntimeError
       else
         let n_graphs = numel ptr - 1;
             has_cell = (d1 CELL \<noteq> None)
         in
         ebind (if has_cell then ebind (lookup d1 CELL) as_mats else Inr []) (\<lambda>cell.
         let strain = replicate n_graphs mzero in
         ebind (if compute_virial then apply_strain strain batch pos has_cell cell
                else Inr (pos, cell)) (\<lambda>(pos, cell).
         ebind (edge_vectors d1 single_graph batch pos has_cell cell edge_index) (\<lambda>vectors.
         let dist = map vnorm vectors in
         Inr (d\<lparr>tensors := d1(EDGE_LENGTH \<mapsto> Nums dist, EDGE_VECTOR \<mapsto> Vecs vectors,
                                STRAIN \<mapsto> Mats strain),
                graph := (graph d)(StrainLeaf := None)\<rparr>))))))))))))"

section \<open>The model shell (xequinet/nn/model.py, BaseModel.forward)\<close>

text \<open>
  A learned stage consumes and returns the batch dictionary; what it computes is not
  known to the shell. \<open>for module in self.module_list: data = module(data)\<close>.
\<close>

type_synonym module = "data \<Rightarrow> error + data"

fun run_modules :: "module list \<Rightarrow> data \<Rightarrow> error + data" where
  "run_modules [] d = Inr d"
| "run_modules (m # ms) d = ebind (m d) (run_modules ms)"

definition forward :: "module list \<Rightarrow> string list \<Rightarrow> bool \<Rightarrow> data \<Rightarrow> bool \<Rightarrow> bool
    \<Rightarrow> error + (string \<rightharpoonup> tdata)" where
  "forward module_list extra_properties training d compute_forces compute_virial =
     ebind (compute_edge_data d compute_forces compute_virial) (\<lambda>d.
     ebind (run_modules module_list d) (\<lambda>d.
     compute_properties d compute_forces compute_virial training (Some extra_properties)))"

section \<open>Notions used to state the properties\<close>

text \<open>The declared extra properties as a list: \<open>None\<close> declares none.\<close>

definition extras :: "string list option \<Rightarrow> string list" where
  "extras extra_properties = (case extra_properties of None \<Rightarrow> [] | Some ks \<Rightarrow> ks)"

text \<open>
  The batch counts as a single structure, as \<open>compute_edge_data\<close> decides it: the
  key \<open>batch\<close> is absent, or the largest entry of \<open>batch\<close> is 0.
\<close>

definition single_structure :: "(string \<rightharpoonup> tdata) \<Rightarrow> bool" where
  "single_structure d =
     (case d BATCH of
        None \<Rightarrow> True
      | Some (Longs bs) \<Rightarrow> Max (set bs) = 0
      | Some other \<Rightarrow> False)"

text \<open>
  The shape invariants of a Structure Batch with \<open>S\<close> structures that edge
  preparation relies on: a cell, when present, holds one matrix per structure and comes
  with one offset triple per edge.
\<close>

definition cells_ok :: "(string \<rightharpoonup> tdata) \<Rightarrow> nat \<Rightarrow> nat \<Rightarrow> bool" where
  "cells_ok d S E =
     (case d CELL of
        None \<Rightarrow> True
      | Some (Mats cell) \<Rightarrow>
          length cell = S
          \<and> (case d CELL_OFFSETS of Some (Vecs offs) \<Rightarrow> length offs = E | other \<Rightarrow> False)
      | Some other \<Rightarrow> False)"

text \<open>
  For \<open>N\<close> atoms and \<open>E\<close> edges: without the key \<open>batch\<close> the batch is a single
  structure; with it, there is one non-negative structure index per atom (and at least
  one atom), the structures are numbered \<open>0 .. S-1\<close> with the largest index in use,
  and \<open>ptr\<close> has length \<open>S+1\<close>.
\<close>

definition batches_ok :: "(string \<rightharpoonup> tdata) \<Rightarrow> nat \<Rightarrow> nat \<Rightarrow> bool" where
  "batches_ok d N E =
     (case d BATCH of
        None \<Rightarrow> cells_ok d 1 E
      | Some (Longs batch) \<Rightarrow>
          (case d BATCH_PTR of
             Some (Longs ptr) \<Rightarrow>
               batch \<noteq> [] \<and> length batch = N
               \<and> list_all (\<lambda>b. 0 \<le> b) batch
               \<and> Max (set batch) + 2 = int (length ptr)
               \<and> cells_ok d (length ptr - 1) E
           | other \<Rightarrow> False)
      | Some other \<Rightarrow> False)"

text \<open>
  A well-formed batch: positions and edges of the right kind, every edge joining two
  valid atom indices, and the fields of the structures in shape.
\<close>

definition well_formed :: "(string \<rightharpoonup> tdata) \<Rightarrow> bool" where
  "well_formed d =
     (case (d POSITIONS, d EDGE_INDEX) of
        (Some (Vecs pos), Some (Edges es)) \<Rightarrow>
          list_all (\<lambda>(c, n). 0 \<le> c \<and> c < int (length pos) \<and> 0 \<le> n \<and> n < int (length pos)) es
          \<and> batches_ok d (length pos) (length es)
      | other \<Rightarrow> False)"

text \<open>
  The lattice translation of the periodic-shift property. An integer triple \<open>k\<close> is
  read as a row vector; the cell of atom \<open>a\<close> is the single cell of a single
  structure and the cell of structure \<open>batch[a]\<close> otherwise. \<open>translate_atom s a k\<close>
  moves atom \<open>a\<close> by \<open>k \<cdot> cell\<close> and changes the offsets of the edges at \<open>a\<close>: by
  \<open>s * k\<close> where \<open>a\<close> is the neighbor and by \<open>- s * k\<close> where \<open>a\<close> is the center.
\<close>

definition lattice_vec :: "int \<times> int \<times> int \<Rightarrow> vec3" where
  "lattice_vec k = (case k of (k1, k2, k3) \<Rightarrow> (of_int k1, of_int k2, of_int k3))"

definition own_cell :: "(string \<rightharpoonup> tdata) \<Rightarrow> nat \<Rightarrow> mat3 list \<Rightarrow> mat3" where
  "own_cell d a cell =
     (if single_structure d then cell ! 0
      else (case d BATCH of Some (Longs batch) \<Rightarrow> cell ! nat (batch ! a) | other \<Rightarrow> cell ! 0))"

definition adjust_offset :: "real \<Rightarrow> int \<Rightarrow> vec3 \<Rightarrow> int \<times> int \<Rightarrow> vec3 \<Rightarrow> vec3" where
  "adjust_offset s a kv e off =
     vadd off (vadd (if snd e = a then vscale s kv else vzero)
                    (if fst e = a then vscale (- s) kv else vzero))"

definition translate_atom :: "real \<Rightarrow> nat \<Rightarrow> int \<times> int \<times> int \<Rightarrow> (string \<rightharpoonup> tdata)
    \<Rightarrow> (string \<rightharpoonup> tdata)" where
  "translate_atom s a k d =
     (case (d POSITIONS, d EDGE_INDEX, d CELL, d CELL_OFFSETS) of
        (Some (Vecs pos), Some (Edges es), Some (Mats cell), Some (Vecs offs)) \<Rightarrow>
          d(POSITIONS \<mapsto> Vecs (pos[a := vadd (pos ! a) (vmat (lattice_vec k) (own_cell d a cell))]),
            CELL_OFFSETS \<mapsto> Vecs (map2 (adjust_offset s (int a) (lattice_vec k)) es offs))
      | other \<Rightarrow> d)"

text \<open>The \<open>edge_length\<close> field after edge preparation.\<close>

definition edge_lengths :: "data \<Rightarrow> bool \<Rightarrow> bool \<Rightarrow> error + tdata option" where
  "edge_lengths d compute_forces compute_virial =
     (case compute_edge_data d compute_forces compute_virial of
        Inl e \<Rightarrow> Inl e
      | Inr r \<Rightarrow> Inr (tensors r EDGE_LENGTH))"

text \<open>
  A two-structure example: one atom per structure, the energy of each structure
  depending on its own atom and its own strain only.
\<close>

definition example_tape :: tape where
  "example_tape l =
     (case l of
        PosLeaf \<Rightarrow> Some [Vecs [(1, 2, 3), (0, 0, 0)], Vecs [(0, 0, 0), (4, 5, 6)]]
      | StrainLeaf \<Rightarrow> Some [Mats [((1, 0, 0), (0, 1, 0), (0, 0, 1)), mzero],
                             Mats [mzero, ((2, 0, 0), (0, 2, 0), (0, 0, 2))]])"

definition example_state :: data where
  "example_state =
     \<lparr>tensors = [TOTAL_ENERGY \<mapsto> Nums [5, 7],
                 POSITIONS \<mapsto> Vecs [(0, 0, 0), (1, 0, 0)],
                 STRAIN \<mapsto> Mats [mzero, mzero],
                 ''atomic_charges'' \<mapsto> Nums [1 / 2, - 1 / 2]],
      graph = example_tape\<rparr>"

text \<open>
  A periodic batch of two structures with different cells: atoms 0 and 1 in the first,
  bonded to each other (once across a cell boundary), atom 2 in the second, bonded
  to its own periodic image. \<open>example_result\<close> is the batch after edge preparation.
\<close>

definition example_batch :: data where
  "example_batch =
     \<lparr>tensors = [POSITIONS \<mapsto> Vecs [(0, 0, 0), (1, 0, 0), (0, 0, 0)],
                 EDGE_INDEX \<mapsto> Edges [(0, 1), (1, 0), (2, 2)],
                 BATCH \<mapsto> Longs [0, 0, 1],
                 BATCH_PTR \<mapsto> Longs [0, 2, 3],
                 CELL \<mapsto> Mats [((2, 0, 0), (0, 2, 0), (0, 0, 2)),
                                 ((1, 0, 0), (0, 1, 0), (0, 0, 1))],
                 CELL_OFFSETS \<mapsto> Vecs [(0, 0, 0), (1, 0, 0), (0, 1, 0)]],
      graph = (\<lambda>l. None)\<rparr>"

definition example_result :: data where
  "example_result =
     \<lparr>tensors = [POSITIONS \<mapsto> Vecs [(0, 0, 0), (1, 0, 0), (0, 0, 0)],
                 EDGE_INDEX \<mapsto> Edges [(0, 1), (1, 0), (2, 2)],
                 BATCH \<mapsto> Longs [0, 0, 1],
                 BATCH_PTR \<mapsto> Longs [0, 2, 3],
                 CELL \<mapsto> Mats [((2, 0, 0), (0, 2, 0), (0, 0, 2)),
                                 ((1, 0, 0), (0, 1, 0), (0, 0, 1))],
                 CELL_OFFSETS \<mapsto> Vecs [(0, 0, 0), (1, 0, 0), (0, 1, 0)],
                 EDGE_LENGTH \<mapsto> Nums [1, 1, 1],
                 EDGE_VECTOR \<mapsto> Vecs [(- 1, 0, 0), (- 1, 0, 0), (0, - 1, 0)],
                 STRAIN \<mapsto> Mats [mzero, mzero]],
      graph = (\<lambda>l. None)\<rparr>"

text \<open>Batches without edges: a lone atom in a cell, and a lone atom without one.\<close>

definition example_isolated :: data where
  "example_isolated =
     \<lparr>tensors = [POSITIONS \<mapsto> Vecs [(0, 0, 0)],
                 EDGE_INDEX \<mapsto> Edges [],
                 CELL \<mapsto> Mats [((1, 0, 0), (0, 1, 0), (0, 0, 1))],
                 CELL_OFFSETS \<mapsto> Vecs []],
      graph = (\<lambda>l. None)\<rparr>"

definition example_molecule :: data where
  "example_molecule =
     \<lparr>tensors = [POSITIONS \<mapsto> Vecs [(0, 0, 0)], EDGE_INDEX \<mapsto> Edges []],
      graph = (\<lambda>l. None)\<rparr>"

text \<open>
  A learned stage for \<open>example_batch\<close>: it stores one energy per structure; the first
  depends on atoms 0 and 1, the second on no position.
\<close>

definition example_stage :: module where
  "example_stage d =
     Inr (d\<lparr>tensors := (tensors d)(TOTAL_ENERGY \<mapsto> Nums [5, 7]),
            graph := (graph d)(PosLeaf :=
              Some [Vecs [(1, 0, 0), (- 1, 0, 0), (0, 0, 0)],
                    Vecs [(0, 0, 0), (0, 0, 0), (0, 0, 0)]])\<rparr>)"

section \<open>Properties of the gradient-derived property engine\<close>


lemma ebind_Inr_iff: "ebind m f = Inr y \<longleftrightarrow> (\<exists>x. m = Inr x \<and> f x = Inr y)"
  by (cases m) (auto simp: ebind_def)

lemma lookup_Inr_iff: "lookup d k = Inr v \<longleftrightarrow> d k = Some v"
  by (auto simp: lookup_def split: option.splits)

lemma gather_Inr:
  "gather d ks = Inr kvs \<Longrightarrow> map fst kvs = ks \<and> (\<forall>(k, v) \<in> set kvs. d k = Some v)"
  by (induction ks arbitrary: kvs) (auto split: option.splits sum.splits simp: map_sum_def)

lemma dom_update_all: "dom (update_all m kvs) = dom m \<union> fst ` set kvs"
  unfolding update_all_def
  by (induction kvs arbitrary: m) (auto split: prod.splits)

lemma update_all_other:
  "k \<notin> fst ` set kvs \<Longrightarrow> update_all m kvs k = m k"
  unfolding update_all_def
  by (induction kvs arbitrary: m) (auto split: prod.splits)

lemma update_all_consistent:
  "(\<forall>(k, v) \<in> set kvs. d k = Some v) \<Longrightarrow> k \<in> fst ` set kvs \<Longrightarrow> update_all m kvs k = d k"
proof (induction kvs arbitrary: m)
  case Nil then show ?case by simp
next
  case (Cons a kvs)
  obtain k' v' where a: "a = (k', v')" by (cases a)
  have step: "update_all m (a # kvs) = update_all (m(k' \<mapsto> v')) kvs"
    by (simp add: update_all_def a)
  show ?case
  proof (cases "k \<in> fst ` set kvs")
    case True
    with Cons show ?thesis by (simp add: step)
  next
    case False
    with Cons.prems have "k = k'" and "d k' = Some v'" by (auto simp: a)
    with False show ?thesis by (simp add: step update_all_other)
  qed
qed


lemma zeros_like_ones_like: "zeros_like (ones_like e) = zeros_like e"
  by (cases e) simp_all

lemma flat_ones_like: "is_floating e \<Longrightarrow> flat (ones_like e) = replicate (numel e) 1"
proof (cases e)
  case (Vecs vs)
  have "concat (replicate n [1::real, 1, 1]) = replicate (3 * n) 1" for n
    by (induction n) (simp_all add: eval_nat_numeral)
  then show ?thesis using Vecs by (simp add: map_replicate_const)
next
  case (Mats ms)
  have "concat (replicate n [1::real, 1, 1, 1, 1, 1, 1, 1, 1]) = replicate (9 * n) 1" for n
    by (induction n) (simp_all add: eval_nat_numeral)
  then show ?thesis using Mats by (simp add: map_replicate_const)
qed simp_all

lemma grad_one_input:
  "autograd_grad g e [(l, x)] (ones_like e) r c False =
     (if is_floating e \<and> is_floating x
      then (case g l of None \<Rightarrow> Inl RuntimeError
            | Some rows \<Rightarrow> Inr [Some (vjp (flat (ones_like e)) rows x)])
      else Inl RuntimeError)"
  by (simp add: autograd_grad_def zeros_like_ones_like split: option.splits)

lemma grad_two_inputs:
  "autograd_grad g e [(l, x), (m, y)] (ones_like e) r c False =
     (if is_floating e \<and> is_floating x \<and> is_floating y
      then (case (g l, g m) of
              (Some rows, Some rows') \<Rightarrow>
                Inr [Some (vjp (flat (ones_like e)) rows x), Some (vjp (flat (ones_like e)) rows' y)]
            | _ \<Rightarrow> Inl RuntimeError)
      else Inl RuntimeError)"
  by (simp add: autograd_grad_def zeros_like_ones_like split: option.splits)

lemma forces_only_eq:
  "compute_forces_only g e p t =
     (if is_floating e \<and> is_floating p
      then (case g PosLeaf of None \<Rightarrow> Inl RuntimeError
            | Some rows \<Rightarrow> Inr (tscale (- 1) (vjp (flat (ones_like e)) rows p)))
      else Inl RuntimeError)"
  by (simp add: compute_forces_only_def grad_one_input split: option.splits)

lemma virial_only_eq:
  "compute_virial_only g e s t =
     (if is_floating e \<and> is_floating s
      then (case g StrainLeaf of None \<Rightarrow> Inl RuntimeError
            | Some rows \<Rightarrow> Inr (tscale (- 1) (vjp (flat (ones_like e)) rows s)))
      else Inl RuntimeError)"
  by (simp add: compute_virial_only_def grad_one_input split: option.splits)

lemma forces_and_virial_eq:
  "compute_forces_and_virial g e p s t =
     (if is_floating e \<and> is_floating p \<and> is_floating s
      then (case (g PosLeaf, g StrainLeaf) of
              (Some rows, Some rows') \<Rightarrow>
                Inr (tscale (- 1) (vjp (flat (ones_like e)) rows p),
                     tscale (- 1) (vjp (flat (ones_like e)) rows' s))
            | _ \<Rightarrow> Inl RuntimeError)
      else Inl RuntimeError)"
  by (simp add: compute_forces_and_virial_def grad_two_inputs split: option.splits)

lemma tscale_one: "is_floating r \<Longrightarrow> tscale 1 r = r"
proof (cases r)
  case (Vecs vs)
  have "vscale 1 v = v" for v by (cases v) simp
  then show ?thesis using Vecs by (simp add: map_idI)
next
  case (Mats ms)
  have v: "vscale 1 v = v" for v by (cases v) simp
  have "mscale 1 m = m" for m by (cases m) (simp add: v)
  then show ?thesis using Mats by (simp add: map_idI)
next
  case (Nums xs)
  then show ?thesis by (simp add: map_idI)
qed simp_all

lemma vjp_unit_weights:
  "list_all is_floating rows \<Longrightarrow> n = length rows \<Longrightarrow>
     vjp (replicate n 1) rows x = foldr tadd rows (zeros_like x)"
  unfolding vjp_def
  by (induction rows arbitrary: n) (auto simp: tscale_one)

lemma combined_eq_separate:
  "compute_forces_and_virial g e p s t =
     (case compute_forces_only g e p t of
        Inl err \<Rightarrow> Inl err
      | Inr f \<Rightarrow> (case compute_virial_only g e s t of
                    Inl err \<Rightarrow> Inl err
                  | Inr v \<Rightarrow> Inr (f, v)))"
  by (simp add: forces_and_virial_eq forces_only_eq virial_only_eq split: option.splits)



lemma compute_properties_Inr:
  assumes "compute_properties d cf cv t ex = Inr r"
  shows "\<exists>r0 kvs. dom r0 = (if cf then {FORCES} else {}) \<union> (if cv then {VIRIAL} else {})
           \<and> gather (tensors d) (extras ex) = Inr kvs \<and> r = update_all r0 kvs"
proof -
  from assms obtain r0 where
    r0: "(if cf \<and> cv then
          ebind (lookup (tensors d) TOTAL_ENERGY) (\<lambda>energy.
          ebind (lookup (tensors d) POSITIONS) (\<lambda>pos.
          ebind (lookup (tensors d) STRAIN) (\<lambda>strain.
          ebind (compute_forces_and_virial (graph d) energy pos strain t)
            (\<lambda>(forces, virial). Inr [FORCES \<mapsto> forces, VIRIAL \<mapsto> virial]))))
        else if cf then
          ebind (lookup (tensors d) TOTAL_ENERGY) (\<lambda>energy.
          ebind (lookup (tensors d) POSITIONS) (\<lambda>pos.
          ebind (compute_forces_only (graph d) energy pos t)
            (\<lambda>forces. Inr [FORCES \<mapsto> forces])))
        else if cv then
          ebind (lookup (tensors d) TOTAL_ENERGY) (\<lambda>energy.
          ebind (lookup (tensors d) STRAIN) (\<lambda>strain.
          ebind (compute_virial_only (graph d) energy strain t)
            (\<lambda>virial. Inr [VIRIAL \<mapsto> virial])))
        else Inr Map.empty) = Inr r0"
    and rest: "(case ex of None \<Rightarrow> Inr r0
          | Some ks \<Rightarrow> ebind (gather (tensors d) ks) (\<lambda>kvs. Inr (update_all r0 kvs))) = Inr r"
    unfolding compute_properties_def ebind_Inr_iff by blast
  from r0 have dom0: "dom r0 = (if cf then {FORCES} else {}) \<union> (if cv then {VIRIAL} else {})"
    by (auto simp: ebind_Inr_iff split: if_splits)
  from rest obtain kvs where "gather (tensors d) (extras ex) = Inr kvs" "r = update_all r0 kvs"
    by (cases ex) (auto simp: ebind_Inr_iff extras_def update_all_def)
  with dom0 show ?thesis by blast
qed

text \<open>
  Claim C10. Whenever \<open>compute_properties\<close> returns, the keys of the mapping it
  returns are exactly \<open>forces\<close> when \<open>compute_forces\<close> is set, \<open>virial\<close> when
  \<open>compute_virial\<close> is set, and the entries of \<open>extra_properties\<close>, each of which
  holds the value the batch stores under that key. So \<open>energy\<close> is a key only when
  it is listed in \<open>extra_properties\<close>, and with both flags off and
  \<open>extra_properties\<close> empty or \<open>None\<close> the mapping is empty.
\<close>

theorem compute_properties_keys:
  assumes "compute_properties d cf cv training extra_properties = Inr results"
  shows "dom results =
           (if cf then {FORCES} else {}) \<union> (if cv then {VIRIAL} else {})
             \<union> set (extras extra_properties)
         \<and> (\<forall>k \<in> set (extras extra_properties). results k = tensors d k)
         \<and> (TOTAL_ENERGY \<in> dom results \<longleftrightarrow> TOTAL_ENERGY \<in> set (extras extra_properties))
         \<and> compute_properties d False False training None = Inr Map.empty
         \<and> compute_properties d False False training (Some []) = Inr Map.empty"
proof -
  from compute_properties_Inr [OF assms] obtain r0 kvs where
    dom0: "dom r0 = (if cf then {FORCES} else {}) \<union> (if cv then {VIRIAL} else {})"
    and g: "gather (tensors d) (extras extra_properties) = Inr kvs"
    and r: "results = update_all r0 kvs"
    by blast
  from gather_Inr [OF g] have fst: "map fst kvs = extras extra_properties"
    and vals: "\<forall>(k, v) \<in> set kvs. tensors d k = Some v"
    by simp_all
  from fst have img: "fst ` set kvs = set (extras extra_properties)"
    by (metis set_map)
  have d: "dom results =
      (if cf then {FORCES} else {}) \<union> (if cv then {VIRIAL} else {}) \<union> set (extras extra_properties)"
    by (simp add: r dom_update_all dom0 img)
  have c: "\<forall>k \<in> set (extras extra_properties). results k = tensors d k"
    using update_all_consistent [OF vals] img r by blast
  have e: "TOTAL_ENERGY \<in> dom results \<longleftrightarrow> TOTAL_ENERGY \<in> set (extras extra_properties)"
    unfolding d by (auto simp: keys_defs)
  have n: "compute_properties d False False training None = Inr Map.empty"
    "compute_properties d False False training (Some []) = Inr Map.empty"
    by (simp_all add: compute_properties_def ebind_def update_all_def)
  from d c e n show ?thesis by blast
qed


theorem compute_properties_keys_witness:
  "(\<exists>results. compute_properties example_state True True True (Some [''atomic_charges'']) = Inr results
     \<and> dom results = {FORCES, VIRIAL, ''atomic_charges''}
     \<and> results ''atomic_charges'' = Some (Nums [1 / 2, - 1 / 2])
     \<and> TOTAL_ENERGY \<notin> dom results)"
proof -
  obtain results where
    r: "compute_properties example_state True True True (Some [''atomic_charges'']) = Inr results"
    by (simp add: compute_properties_def example_state_def example_tape_def ebind_def lookup_def
        forces_and_virial_eq keys_defs update_all_def)
  from compute_properties_keys [OF r] r show ?thesis
    by (auto simp: extras_def example_state_def keys_defs)
qed

lemma extras_tail:
  "(case ex of None \<Rightarrow> Inr r0
    | Some ks \<Rightarrow> ebind (gather (tensors d) ks) (\<lambda>kvs. Inr (update_all r0 kvs))) = Inr r
   \<longleftrightarrow> (\<exists>kvs. gather (tensors d) (extras ex) = Inr kvs \<and> r = update_all r0 kvs)"
  by (cases ex) (auto simp: ebind_Inr_iff extras_def update_all_def)

lemma properties_both_iff:
  "compute_properties d True True t ex = Inr r \<longleftrightarrow>
     (\<exists>e p s f v kvs. tensors d TOTAL_ENERGY = Some e \<and> tensors d POSITIONS = Some p
        \<and> tensors d STRAIN = Some s
        \<and> compute_forces_and_virial (graph d) e p s t = Inr (f, v)
        \<and> gather (tensors d) (extras ex) = Inr kvs
        \<and> r = update_all [FORCES \<mapsto> f, VIRIAL \<mapsto> v] kvs)"
  unfolding compute_properties_def
  by (simp add: ebind_Inr_iff lookup_Inr_iff extras_tail) blast

lemma properties_forces_iff:
  "compute_properties d True False t ex = Inr r \<longleftrightarrow>
     (\<exists>e p f kvs. tensors d TOTAL_ENERGY = Some e \<and> tensors d POSITIONS = Some p
        \<and> compute_forces_only (graph d) e p t = Inr f
        \<and> gather (tensors d) (extras ex) = Inr kvs
        \<and> r = update_all [FORCES \<mapsto> f] kvs)"
  unfolding compute_properties_def
  by (simp add: ebind_Inr_iff lookup_Inr_iff extras_tail) blast

lemma properties_virial_iff:
  "compute_properties d False True t ex = Inr r \<longleftrightarrow>
     (\<exists>e s v kvs. tensors d TOTAL_ENERGY = Some e \<and> tensors d STRAIN = Some s
        \<and> compute_virial_only (graph d) e s t = Inr v
        \<and> gather (tensors d) (extras ex) = Inr kvs
        \<and> r = update_all [VIRIAL \<mapsto> v] kvs)"
  unfolding compute_properties_def
  by (simp add: ebind_Inr_iff lookup_Inr_iff extras_tail) blast

lemma update_all_same_key:
  "(\<forall>(k, v) \<in> set kvs. d k = Some v) \<Longrightarrow> m k = m' k \<Longrightarrow> update_all m kvs k = update_all m' kvs k"
  by (cases "k \<in> fst ` set kvs") (simp_all add: update_all_consistent update_all_other)

text \<open>
  Claim C5. Requesting forces and virial together gives the pair of results of the
  forces-only and the virial-only call on the same energy, positions, strain and
  graph, and fails exactly when one of the two fails. The pair comes from one call of
  \<open>torch.autograd.grad\<close> with both inputs. The same holds through
  \<open>compute_properties\<close>: the \<open>forces\<close> and \<open>virial\<close> entries of the combined call are
  those of the two single-property calls.
\<close>

theorem combined_mode_consistency:
  "compute_forces_and_virial g energy pos strain training =
     (case compute_forces_only g energy pos training of
        Inl err \<Rightarrow> Inl err
      | Inr f \<Rightarrow> (case compute_virial_only g energy strain training of
                    Inl err \<Rightarrow> Inl err
                  | Inr v \<Rightarrow> Inr (f, v)))
   \<and> (compute_forces_and_virial g energy pos strain training = Inr (forces, virial) \<longrightarrow>
        (\<exists>gp gs. autograd_grad g energy [(PosLeaf, pos), (StrainLeaf, strain)]
                    (ones_like energy) training training False = Inr [Some gp, Some gs]
           \<and> forces = tscale (- 1) gp \<and> virial = tscale (- 1) gs))
   \<and> (compute_properties d True True training extra_properties = Inr results \<longrightarrow>
        (\<exists>rf rv. compute_properties d True False training extra_properties = Inr rf
           \<and> compute_properties d False True training extra_properties = Inr rv
           \<and> results FORCES = rf FORCES \<and> results VIRIAL = rv VIRIAL))"
proof (intro conjI impI)
  show "compute_forces_and_virial g energy pos strain training =
     (case compute_forces_only g energy pos training of
        Inl err \<Rightarrow> Inl err
      | Inr f \<Rightarrow> (case compute_virial_only g energy strain training of
                    Inl err \<Rightarrow> Inl err
                  | Inr v \<Rightarrow> Inr (f, v)))"
    by (rule combined_eq_separate)
next
  assume "compute_forces_and_virial g energy pos strain training = Inr (forces, virial)"
  then show "\<exists>gp gs. autograd_grad g energy [(PosLeaf, pos), (StrainLeaf, strain)]
                    (ones_like energy) training training False = Inr [Some gp, Some gs]
           \<and> forces = tscale (- 1) gp \<and> virial = tscale (- 1) gs"
    by (auto simp: forces_and_virial_eq grad_two_inputs split: if_splits option.splits)
next
  assume "compute_properties d True True training extra_properties = Inr results"
  then obtain e p s f v kvs where
    e: "tensors d TOTAL_ENERGY = Some e" and p: "tensors d POSITIONS = Some p"
    and s: "tensors d STRAIN = Some s"
    and fv: "compute_forces_and_virial (graph d) e p s training = Inr (f, v)"
    and g: "gather (tensors d) (extras extra_properties) = Inr kvs"
    and r: "results = update_all [FORCES \<mapsto> f, VIRIAL \<mapsto> v] kvs"
    unfolding properties_both_iff by blast
  from fv have f: "compute_forces_only (graph d) e p training = Inr f"
    and v: "compute_virial_only (graph d) e s training = Inr v"
    by (auto simp: combined_eq_separate split: sum.splits)
  have rf: "compute_properties d True False training extra_properties
      = Inr (update_all [FORCES \<mapsto> f] kvs)"
    unfolding properties_forces_iff using e p f g by blast
  have rv: "compute_properties d False True training extra_properties
      = Inr (update_all [VIRIAL \<mapsto> v] kvs)"
    unfolding properties_virial_iff using e s v g by blast
  from gather_Inr [OF g] have vals: "\<forall>(k, v) \<in> set kvs. tensors d k = Some v"
    by simp
  have "results FORCES = update_all [FORCES \<mapsto> f] kvs FORCES"
    unfolding r by (rule update_all_same_key [OF vals]) (simp add: keys_defs)
  moreover have "results VIRIAL = update_all [VIRIAL \<mapsto> v] kvs VIRIAL"
    unfolding r by (rule update_all_same_key [OF vals]) (simp add: keys_defs)
  ultimately show "\<exists>rf rv. compute_properties d True False training extra_properties = Inr rf
           \<and> compute_properties d False True training extra_properties = Inr rv
           \<and> results FORCES = rf FORCES \<and> results VIRIAL = rv VIRIAL"
    using rf rv by blast
qed

theorem combined_mode_consistency_witness:
  "compute_forces_and_virial example_tape (Nums [5, 7]) (Vecs [(0, 0, 0), (1, 0, 0)])
       (Mats [mzero, mzero]) True
     = Inr (Vecs [(- 1, - 2, - 3), (- 4, - 5, - 6)],
            Mats [((- 1, 0, 0), (0, - 1, 0), (0, 0, - 1)), ((- 2, 0, 0), (0, - 2, 0), (0, 0, - 2))])
   \<and> compute_forces_only example_tape (Nums [5, 7]) (Vecs [(0, 0, 0), (1, 0, 0)]) True
     = Inr (Vecs [(- 1, - 2, - 3), (- 4, - 5, - 6)])
   \<and> compute_virial_only example_tape (Nums [5, 7]) (Mats [mzero, mzero]) True
     = Inr (Mats [((- 1, 0, 0), (0, - 1, 0), (0, 0, - 1)), ((- 2, 0, 0), (0, - 2, 0), (0, 0, - 2))])"
  using combined_mode_consistency
    [of example_tape "Nums [5, 7]" "Vecs [(0, 0, 0), (1, 0, 0)]" "Mats [mzero, mzero]" True]
  by (simp add: forces_only_eq virial_only_eq example_tape_def vjp_def vzero_def mzero_def
      split: sum.splits)

text \<open>
  What the fallback \<open>if pos_grad is None\<close> is written for: with \<open>allow_unused\<close> set,
  an input the graph does not reach yields \<open>None\<close> instead of an error.
\<close>

lemma grad_allow_unused:
  "is_floating e \<Longrightarrow> is_floating x \<Longrightarrow> g l = None \<Longrightarrow>
     autograd_grad g e [(l, x)] (ones_like e) r c True = Inr [None]"
  by (simp add: autograd_grad_def zeros_like_ones_like)

text \<open>
  Claim C1, as the code behaves. \<open>torch.autograd.grad\<close> is called without
  \<open>allow_unused=True\<close>, so when the graph of the energy does not reach the positions
  (or the strain) the call raises, and the branch \<open>if pos_grad is None\<close> that would
  put zeros in place of the missing gradient is never reached.
\<close>

theorem disconnected_gradient_raises:
  "(g PosLeaf = None \<longrightarrow> compute_forces_only g energy pos training = Inl RuntimeError)
   \<and> (g StrainLeaf = None \<longrightarrow> compute_virial_only g energy strain training = Inl RuntimeError)
   \<and> (g PosLeaf = None \<or> g StrainLeaf = None \<longrightarrow>
        compute_forces_and_virial g energy pos strain training = Inl RuntimeError)"
  by (auto simp: forces_only_eq virial_only_eq forces_and_virial_eq split: option.splits)

theorem disconnected_gradient_raises_witness:
  "compute_forces_only (\<lambda>l. None) (Nums [1]) (Vecs [(0, 0, 0)]) True = Inl RuntimeError
   \<and> compute_virial_only (\<lambda>l. None) (Nums [1]) (Mats [mzero]) True = Inl RuntimeError
   \<and> compute_forces_and_virial (\<lambda>l. None) (Nums [1]) (Vecs [(0, 0, 0)]) (Mats [mzero]) True
       = Inl RuntimeError"
  using disconnected_gradient_raises
    [of "\<lambda>l. None" "Nums [1]" "Vecs [(0, 0, 0)]" True "Mats [mzero]"]
  by simp

text \<open>
  Claim C8. When the graph of the energy reaches the positions, the forces returned are
  \<open>-1\<close> times the vector-Jacobian product of the per-structure energies with the
  cotangent of all ones; with one Jacobian row per energy entry that is \<open>-1\<close> times
  the sum of the per-structure gradients, the gradient of the summed energy.
\<close>

theorem forces_negative_unit_gradient:
  assumes "g PosLeaf = Some rows" and "is_floating energy" and "is_floating pos"
  shows "compute_forces_only g energy pos training
           = Inr (tscale (- 1) (vjp (replicate (numel energy) 1) rows pos))
         \<and> (length rows = numel energy \<and> list_all is_floating rows \<longrightarrow>
              compute_forces_only g energy pos training
                = Inr (tscale (- 1) (foldr tadd rows (zeros_like pos))))"
  using assms by (simp add: forces_only_eq flat_ones_like vjp_unit_weights)


theorem forces_negative_unit_gradient_witness:
  "compute_forces_only example_tape (Nums [5, 7]) (Vecs [(0, 0, 0), (1, 0, 0)]) True
     = Inr (Vecs [(- 1, - 2, - 3), (- 4, - 5, - 6)])"
  using forces_negative_unit_gradient
    [of example_tape "[Vecs [(1, 2, 3), (0, 0, 0)], Vecs [(0, 0, 0), (4, 5, 6)]]"
        "Nums [5, 7]" "Vecs [(0, 0, 0), (1, 0, 0)]" True]
  by (simp add: example_tape_def vzero_def vjp_def)

section \<open>Properties of edge preparation\<close>

lemmas run_defs =
  compute_edge_data_def ebind_def lookup_def as_vecs_def as_mats_def as_longs_def as_edges_def
  ensure_batch_def edge_vectors_def periodic_shift_def index_select_def broadcast2_def bmm_def
  apply_strain_def symmetrize_def keys_defs Let_def

lemma example_run: "compute_edge_data example_batch True False = Inr example_result"
  by (simp add: example_batch_def example_result_def run_defs mzero_def vzero_def fun_upd_twist)

lemma example_run_virial: "compute_edge_data example_batch True True = Inr example_result"
  by (simp add: example_batch_def example_result_def run_defs mzero_def vzero_def fun_upd_twist)

lemma example_wf: "well_formed (tensors example_batch)"
  by (simp add: example_batch_def well_formed_def batches_ok_def cells_ok_def keys_defs)


lemma as_vecs_Inr_iff: "as_vecs t = Inr vs \<longleftrightarrow> t = Vecs vs"
  by (cases t) (simp_all add: as_vecs_def)

lemma as_mats_Inr_iff: "as_mats t = Inr ms \<longleftrightarrow> t = Mats ms"
  by (cases t) (simp_all add: as_mats_def)

lemma as_longs_Inr_iff: "as_longs t = Inr ks \<longleftrightarrow> t = Longs ks"
  by (cases t) (simp_all add: as_longs_def)

lemma as_edges_Inr_iff: "as_edges t = Inr es \<longleftrightarrow> t = Edges es"
  by (cases t) (simp_all add: as_edges_def)

lemma index_select_Inr_iff:
  "index_select xs idx = Inr ys \<longleftrightarrow>
     list_all (\<lambda>i. 0 \<le> i \<and> i < int (length xs)) idx \<and> ys = map (\<lambda>i. xs ! nat i) idx"
  by (auto simp: index_select_def)

lemma bmm_Inr_iff: "bmm f xs ys = Inr zs \<longleftrightarrow> length xs = length ys \<and> zs = map2 f xs ys"
  by (auto simp: bmm_def)

lemma broadcast2_same_length:
  "length xs = length ys \<Longrightarrow> broadcast2 f xs ys = Inr (map2 f xs ys)"
  by (simp add: broadcast2_def)

lemma ensure_batch_Inr_iff:
  "ensure_batch d n = Inr (d1, single) \<longleftrightarrow>
     (d BATCH = None \<and> d1 = d(BATCH \<mapsto> Longs (replicate n 0), BATCH_PTR \<mapsto> Longs [0, int n])
        \<and> single)
     \<or> (\<exists>bs. d BATCH = Some (Longs bs) \<and> bs \<noteq> [] \<and> d1 = d \<and> single = (Max (set bs) = 0))"
  by (auto simp: ensure_batch_def ebind_Inr_iff as_longs_Inr_iff split: option.splits)

lemma vadd_vzero: "vadd v vzero = v"
  by (cases v) (simp add: vzero_def)

lemma vmat_mzero: "vmat v mzero = vzero"
  by (cases v) (simp add: mzero_def vzero_def)

lemma madd_mzero: "madd m mzero = m"
  by (cases m rule: prod_cases3) (simp add: mzero_def vadd_vzero)

lemma mmul_mzero: "mmul m mzero = mzero"
  by (cases m rule: prod_cases3) (simp add: vmat_mzero, simp add: mzero_def)

lemma symmetrize_mzero: "symmetrize mzero = mzero"
  by (simp add: symmetrize_def mzero_def vzero_def)

lemma map2_replicate_right:
  "length xs = n \<Longrightarrow> map2 f xs (replicate n y) = map (\<lambda>x. f x y) xs"
  by (induction xs arbitrary: n) auto

lemma map2_map_right: "map2 f xs (map g xs) = map (\<lambda>x. f x (g x)) xs"
  by (induction xs) auto

lemma select_replicate:
  "list_all (\<lambda>b. 0 \<le> b \<and> b < int n) batch \<Longrightarrow>
     map (\<lambda>i. replicate n y ! nat i) batch = replicate (length batch) y"
  by (induction batch) auto

lemma unstrained_positions:
  "length pos = n \<Longrightarrow> map2 vadd pos (map2 vmat pos (replicate n mzero)) = pos"
  by (simp add: map2_replicate_right vmat_mzero map2_map_right vadd_vzero)

lemma unstrained_cell:
  "length cell = n \<Longrightarrow> map2 madd cell (map2 mmul cell (replicate n mzero)) = cell"
  by (simp add: map2_replicate_right mmul_mzero map2_map_right madd_mzero)

lemma apply_strain_zero_iff:
  "apply_strain (replicate n mzero) batch pos has_cell cell = Inr (pos', cell') \<longleftrightarrow>
     list_all (\<lambda>b. 0 \<le> b \<and> b < int n) batch \<and> length pos = length batch
       \<and> (has_cell \<longrightarrow> length cell = n) \<and> pos' = pos \<and> cell' = cell"
  unfolding apply_strain_def Let_def
  by (auto simp: ebind_Inr_iff index_select_Inr_iff bmm_Inr_iff symmetrize_mzero
      select_replicate unstrained_positions unstrained_cell)


lemma strain_step_Inr_iff:
  "(if cv then apply_strain (replicate n mzero) batch pos has_cell cell else Inr (pos, cell))
      = Inr pc \<longleftrightarrow>
     (cv \<longrightarrow> list_all (\<lambda>b. 0 \<le> b \<and> b < int n) batch \<and> length pos = length batch
              \<and> (has_cell \<longrightarrow> length cell = n))
     \<and> pc = (pos, cell)"
  by (cases pc) (auto simp: apply_strain_zero_iff)

lemma compute_edge_data_Inr_iff:
  "compute_edge_data d cf cv = Inr d' \<longleftrightarrow>
     (\<exists>pos es d1 single batch ptr cell vectors.
        tensors d POSITIONS = Some (Vecs pos) \<and> tensors d EDGE_INDEX = Some (Edges es)
      \<and> ensure_batch (tensors d) (length pos) = Inr (d1, single)
      \<and> d1 BATCH = Some (Longs batch) \<and> d1 BATCH_PTR = Some ptr \<and> numel ptr \<noteq> 0
      \<and> (case d1 CELL of None \<Rightarrow> cell = [] | Some t \<Rightarrow> t = Mats cell)
      \<and> (cv \<longrightarrow> list_all (\<lambda>b. 0 \<le> b \<and> b < int (numel ptr - 1)) batch
                \<and> length pos = length batch
                \<and> (d1 CELL \<noteq> None \<longrightarrow> length cell = numel ptr - 1))
      \<and> edge_vectors d1 single batch pos (d1 CELL \<noteq> None) cell es = Inr vectors
      \<and> d' = d\<lparr>tensors := d1(EDGE_LENGTH \<mapsto> Nums (map vnorm vectors),
                               EDGE_VECTOR \<mapsto> Vecs vectors,
                               STRAIN \<mapsto> Mats (replicate (numel ptr - 1) mzero)),
                graph := (graph d)(StrainLeaf := None)\<rparr>)"
proof -
  have tail: "(if numel ptr = 0 then Inl RuntimeError
       else
         let n_graphs = numel ptr - 1;
             has_cell = (d1 CELL \<noteq> None)
         in
         ebind (if has_cell then ebind (lookup d1 CELL) as_mats else Inr []) (\<lambda>cell.
         let strain = replicate n_graphs mzero in
         ebind (if cv then apply_strain strain batch pos has_cell cell
                else Inr (pos, cell)) (\<lambda>(pos, cell).
         ebind (edge_vectors d1 single batch pos has_cell cell es) (\<lambda>vectors.
         let dist = map vnorm vectors in
         Inr (d\<lparr>tensors := d1(EDGE_LENGTH \<mapsto> Nums dist, EDGE_VECTOR \<mapsto> Vecs vectors,
                                STRAIN \<mapsto> Mats strain),
                graph := (graph d)(StrainLeaf := None)\<rparr>))))) = Inr d'
    \<longleftrightarrow> (\<exists>cell vectors. numel ptr \<noteq> 0
      \<and> (case d1 CELL of None \<Rightarrow> cell = [] | Some t \<Rightarrow> t = Mats cell)
      \<and> (cv \<longrightarrow> list_all (\<lambda>b. 0 \<le> b \<and> b < int (numel ptr - 1)) batch
                \<and> length pos = length batch
                \<and> (d1 CELL \<noteq> None \<longrightarrow> length cell = numel ptr - 1))
      \<and> edge_vectors d1 single batch pos (d1 CELL \<noteq> None) cell es = Inr vectors
      \<and> d' = d\<lparr>tensors := d1(EDGE_LENGTH \<mapsto> Nums (map vnorm vectors),
                               EDGE_VECTOR \<mapsto> Vecs vectors,
                               STRAIN \<mapsto> Mats (replicate (numel ptr - 1) mzero)),
                graph := (graph d)(StrainLeaf := None)\<rparr>)"
    for d1 single batch pos es ptr
  proof (cases "numel ptr = 0")
    case True
    then show ?thesis by simp
  next
    case False
    show ?thesis
      unfolding Let_def using False
      by (auto simp: ebind_Inr_iff lookup_Inr_iff as_mats_Inr_iff strain_step_Inr_iff
          split: option.splits)
  qed
  define T where "T = (\<lambda>d1 single batch pos es ptr.
      (if numel ptr = 0 then Inl RuntimeError
       else
         let n_graphs = numel ptr - 1;
             has_cell = (d1 CELL \<noteq> None)
         in
         ebind (if has_cell then ebind (lookup d1 CELL) as_mats else Inr []) (\<lambda>cell.
         let strain = replicate n_graphs mzero in
         ebind (if cv then apply_strain strain batch pos has_cell cell
                else Inr (pos, cell)) (\<lambda>(pos, cell).
         ebind (edge_vectors d1 single batch pos has_cell cell es) (\<lambda>vectors.
         let dist = map vnorm vectors in
         Inr (d\<lparr>tensors := d1(EDGE_LENGTH \<mapsto> Nums dist, EDGE_VECTOR \<mapsto> Vecs vectors,
                                STRAIN \<mapsto> Mats strain),
                graph := (graph d)(StrainLeaf := None)\<rparr>))))))"
  have unfolded: "compute_edge_data d cf cv =
     ebind (lookup (tensors d) POSITIONS) (\<lambda>pos_t.
     ebind (as_vecs pos_t) (\<lambda>pos.
     ebind (lookup (tensors d) EDGE_INDEX) (\<lambda>edge_index_t.
     ebind (as_edges edge_index_t) (\<lambda>edge_index.
     ebind (ensure_batch (tensors d) (length pos)) (\<lambda>(d1, single_graph).
     ebind (lookup d1 BATCH) (\<lambda>batch_t.
     ebind (as_longs batch_t) (\<lambda>batch.
     ebind (lookup d1 BATCH_PTR) (\<lambda>ptr. T d1 single_graph batch pos edge_index ptr))))))))"
    unfolding compute_edge_data_def T_def ..
  have head: "compute_edge_data d cf cv = Inr d' \<longleftrightarrow>
     (\<exists>pos es d1 single batch ptr.
        tensors d POSITIONS = Some (Vecs pos) \<and> tensors d EDGE_INDEX = Some (Edges es)
      \<and> ensure_batch (tensors d) (length pos) = Inr (d1, single)
      \<and> d1 BATCH = Some (Longs batch) \<and> d1 BATCH_PTR = Some ptr
      \<and> T d1 single batch pos es ptr = Inr d')"
    unfolding unfolded
    by (auto simp: ebind_Inr_iff lookup_Inr_iff as_vecs_Inr_iff as_longs_Inr_iff as_edges_Inr_iff)
  show ?thesis
    unfolding head unfolding T_def tail by blast
qed

lemma map2_vsub_select:
  "map2 vsub (map (\<lambda>i. pos ! nat i) (map fst es)) (map (\<lambda>i. pos ! nat i) (map snd es))
     = map (\<lambda>(c, n). vsub (pos ! nat c) (pos ! nat n)) es"
  by (induction es) auto

lemma edge_vectors_Inr_iff:
  "edge_vectors d single batch pos has_cell cell es = Inr vectors \<longleftrightarrow>
     list_all (\<lambda>(c, n). 0 \<le> c \<and> c < int (length pos) \<and> 0 \<le> n \<and> n < int (length pos)) es
     \<and> (if has_cell
        then periodic_shift d single batch cell (map snd es)
               (map (\<lambda>(c, n). vsub (pos ! nat c) (pos ! nat n)) es) = Inr vectors
        else vectors = map (\<lambda>(c, n). vsub (pos ! nat c) (pos ! nat n)) es)"
proof -
  have "list_all (\<lambda>i. 0 \<le> i \<and> i < int (length pos)) (map fst es)
        \<and> list_all (\<lambda>i. 0 \<le> i \<and> i < int (length pos)) (map snd es)
      \<longleftrightarrow> list_all (\<lambda>(c, n). 0 \<le> c \<and> c < int (length pos) \<and> 0 \<le> n \<and> n < int (length pos)) es"
    by (induction es) auto
  then show ?thesis
    unfolding edge_vectors_def Let_def
    by (auto simp: ebind_Inr_iff index_select_Inr_iff map2_vsub_select simp del: map_map)
qed

lemma periodic_shift_single:
  assumes "d CELL_OFFSETS = Some (Vecs offs)" and "length offs = length vectors"
  shows "periodic_shift d True batch cell nbr vectors = Inr vs \<longleftrightarrow>
           (\<exists>c. cell = [c] \<and> vs = map2 (\<lambda>v off. vsub v (vmat off c)) vectors offs)"
proof -
  have "map2 vsub vectors (map (\<lambda>off. vmat off c) offs)
        = map2 (\<lambda>v off. vsub v (vmat off c)) vectors offs" for c
    using assms(2) by (induction vectors offs rule: list_induct2') auto
  then show ?thesis
    using assms unfolding periodic_shift_def
    by (auto simp: ebind_def lookup_def as_vecs_def broadcast2_same_length
        split: list.splits)
qed

lemma periodic_shift_multi:
  assumes "d CELL_OFFSETS = Some (Vecs offs)" and "length offs = length vectors"
    and "length nbr = length vectors"
  shows "periodic_shift d False batch cell nbr vectors = Inr vs \<longleftrightarrow>
           list_all (\<lambda>i. 0 \<le> i \<and> i < int (length batch)) nbr
           \<and> list_all (\<lambda>i. 0 \<le> i \<and> i < int (length cell)) (map (\<lambda>i. batch ! nat i) nbr)
           \<and> vs = map2 (\<lambda>v (off, n). vsub v (vmat off (cell ! nat (batch ! nat n))))
                    vectors (zip offs nbr)"
proof -
  have shape: "map2 vsub vectors (map2 vmat offs (map (\<lambda>i. cell ! nat i) (map (\<lambda>i. batch ! nat i) nbr)))
        = map2 (\<lambda>v (off, n). vsub v (vmat off (cell ! nat (batch ! nat n)))) vectors (zip offs nbr)"
    using assms(2,3)
  proof (induction vectors arbitrary: offs nbr)
    case Nil
    then show ?case by simp
  next
    case (Cons v vectors)
    then obtain off offs' n nbr' where "offs = off # offs'" "nbr = n # nbr'"
      by (cases offs; cases nbr) auto
    with Cons show ?case by simp
  qed
  show ?thesis
    using assms unfolding periodic_shift_def
    by (auto simp: ebind_Inr_iff lookup_Inr_iff as_vecs_Inr_iff index_select_Inr_iff
        broadcast2_same_length shape simp del: map_map)
qed


lemma ensure_batch_facts:
  assumes "ensure_batch d n = Inr (d1, single)"
  shows "single = single_structure d"
    and "d1 CELL = d CELL" and "d1 CELL_OFFSETS = d CELL_OFFSETS"
    and "d1 POSITIONS = d POSITIONS" and "d1 EDGE_INDEX = d EDGE_INDEX"
    and "d BATCH \<noteq> None \<Longrightarrow> d1 = d"
    and "d BATCH = None \<Longrightarrow>
           d1 = d(BATCH \<mapsto> Longs (replicate n 0), BATCH_PTR \<mapsto> Longs [0, int n])"
  using assms unfolding ensure_batch_Inr_iff single_structure_def
  by (auto simp: keys_defs)

lemma edge_data_fields:
  assumes "compute_edge_data d cf cv = Inr d'"
  obtains pos es d1 batch ptr cell vectors where
    "tensors d POSITIONS = Some (Vecs pos)" "tensors d EDGE_INDEX = Some (Edges es)"
    "ensure_batch (tensors d) (length pos) = Inr (d1, single_structure (tensors d))"
    "d1 BATCH = Some (Longs batch)" "d1 BATCH_PTR = Some ptr" "numel ptr \<noteq> 0"
    "case tensors d CELL of None \<Rightarrow> cell = [] | Some t \<Rightarrow> t = Mats cell"
    "cv \<Longrightarrow> list_all (\<lambda>b. 0 \<le> b \<and> b < int (numel ptr - 1)) batch
            \<and> length pos = length batch
            \<and> (tensors d CELL \<noteq> None \<longrightarrow> length cell = numel ptr - 1)"
    "edge_vectors d1 (single_structure (tensors d)) batch pos (tensors d CELL \<noteq> None) cell es
       = Inr vectors"
    "tensors d' = d1(EDGE_LENGTH \<mapsto> Nums (map vnorm vectors), EDGE_VECTOR \<mapsto> Vecs vectors,
                     STRAIN \<mapsto> Mats (replicate (numel ptr - 1) mzero))"
    "graph d' = (graph d)(StrainLeaf := None)"
proof -
  from assms obtain pos es d1 single batch ptr cell vectors where
    f: "tensors d POSITIONS = Some (Vecs pos)" "tensors d EDGE_INDEX = Some (Edges es)"
      "ensure_batch (tensors d) (length pos) = Inr (d1, single)"
      "d1 BATCH = Some (Longs batch)" "d1 BATCH_PTR = Some ptr" "numel ptr \<noteq> 0"
      "case d1 CELL of None \<Rightarrow> cell = [] | Some t \<Rightarrow> t = Mats cell"
      "cv \<longrightarrow> list_all (\<lambda>b. 0 \<le> b \<and> b < int (numel ptr - 1)) batch
                \<and> length pos = length batch
                \<and> (d1 CELL \<noteq> None \<longrightarrow> length cell = numel ptr - 1)"
      "edge_vectors d1 single batch pos (d1 CELL \<noteq> None) cell es = Inr vectors"
      "d' = d\<lparr>tensors := d1(EDGE_LENGTH \<mapsto> Nums (map vnorm vectors),
                               EDGE_VECTOR \<mapsto> Vecs vectors,
                               STRAIN \<mapsto> Mats (replicate (numel ptr - 1) mzero)),
                graph := (graph d)(StrainLeaf := None)\<rparr>"
    unfolding compute_edge_data_Inr_iff by blast
  note eb = ensure_batch_facts [OF f(3)]
  show thesis
    by (rule that [of pos es d1 batch ptr cell vectors])
       (use f eb in \<open>simp_all\<close>)
qed


text \<open>
  Claim C3. Whenever edge preparation returns, \<open>edge_length\<close> holds the Euclidean
  norm of every row of \<open>edge_vector\<close>, and for every edge \<open>(c, n)\<close>: without a cell
  the vector is \<open>pos[c] - pos[n]\<close>; with a cell and one offset triple per edge, the
  shift \<open>cell_offsets \<cdot> cell\<close> is subtracted, taken with the single cell when the
  batch is a single structure and with the cell of structure \<open>batch[n]\<close> otherwise.
\<close>

theorem edge_vector_formula:
  assumes ok: "compute_edge_data d cf cv = Inr d'"
    and pos: "tensors d POSITIONS = Some (Vecs pos)"
    and es: "tensors d EDGE_INDEX = Some (Edges es)"
    and e: "e < length es" and ce: "es ! e = (c, n)"
  shows "\<exists>vs. tensors d' EDGE_VECTOR = Some (Vecs vs)
           \<and> tensors d' EDGE_LENGTH = Some (Nums (map vnorm vs))
           \<and> (tensors d CELL = None \<longrightarrow>
                length vs = length es \<and> vs ! e = vsub (pos ! nat c) (pos ! nat n))
           \<and> (\<forall>cell offs.
                 tensors d CELL = Some (Mats cell) \<and> tensors d CELL_OFFSETS = Some (Vecs offs)
                 \<and> length offs = length es \<longrightarrow>
                   length vs = length es
                   \<and> (single_structure (tensors d) \<longrightarrow>
                        vs ! e = vsub (vsub (pos ! nat c) (pos ! nat n)) (vmat (offs ! e) (cell ! 0)))
                   \<and> (\<forall>batch. \<not> single_structure (tensors d)
                          \<and> tensors d BATCH = Some (Longs batch) \<longrightarrow>
                        vs ! e = vsub (vsub (pos ! nat c) (pos ! nat n))
                                   (vmat (offs ! e) (cell ! nat (batch ! nat n)))))"
proof -
  from ok obtain pos0 es0 d1 batch0 ptr cell0 vectors where
    f: "tensors d POSITIONS = Some (Vecs pos0)" "tensors d EDGE_INDEX = Some (Edges es0)"
      "ensure_batch (tensors d) (length pos0) = Inr (d1, single_structure (tensors d))"
      "d1 BATCH = Some (Longs batch0)"
      "case tensors d CELL of None \<Rightarrow> cell0 = [] | Some t \<Rightarrow> t = Mats cell0"
      "edge_vectors d1 (single_structure (tensors d)) batch0 pos0 (tensors d CELL \<noteq> None) cell0 es0
         = Inr vectors"
      "tensors d' = d1(EDGE_LENGTH \<mapsto> Nums (map vnorm vectors), EDGE_VECTOR \<mapsto> Vecs vectors,
                       STRAIN \<mapsto> Mats (replicate (numel ptr - 1) mzero))"
    by (rule edge_data_fields)
  from f(1,2) pos es have [simp]: "pos0 = pos" "es0 = es" by simp_all
  note eb = ensure_batch_facts [OF f(3)]
  define base where "base = map (\<lambda>(c, n). vsub (pos ! nat c) (pos ! nat n)) es"
  have base_e: "base ! e = vsub (pos ! nat c) (pos ! nat n)" and base_len: "length base = length es"
    using e ce by (simp_all add: base_def)
  have stored: "tensors d' EDGE_VECTOR = Some (Vecs vectors)"
    "tensors d' EDGE_LENGTH = Some (Nums (map vnorm vectors))"
    by (simp_all add: f(7) keys_defs)
  have no_cell: "length vectors = length es \<and> vectors ! e = vsub (pos ! nat c) (pos ! nat n)"
    if "tensors d CELL = None"
    using f(6) that base_e base_len by (simp add: edge_vectors_Inr_iff base_def)
  have with_cell: "length vectors = length es
      \<and> (single_structure (tensors d) \<longrightarrow>
            vectors ! e = vsub (vsub (pos ! nat c) (pos ! nat n)) (vmat (offs ! e) (cell ! 0)))
      \<and> (\<forall>batch. \<not> single_structure (tensors d) \<and> tensors d BATCH = Some (Longs batch) \<longrightarrow>
            vectors ! e = vsub (vsub (pos ! nat c) (pos ! nat n))
                            (vmat (offs ! e) (cell ! nat (batch ! nat n))))"
    if c: "tensors d CELL = Some (Mats cell)" and o: "tensors d CELL_OFFSETS = Some (Vecs offs)"
      and len: "length offs = length es" for cell offs
  proof -
    from f(5) c have [simp]: "cell0 = cell" by simp
    from o eb(3) have o1: "d1 CELL_OFFSETS = Some (Vecs offs)" by simp
    from len base_len have len': "length offs = length base" by simp
    from f(6) c have ps: "periodic_shift d1 (single_structure (tensors d)) batch0 cell
        (map snd es) base = Inr vectors"
      by (simp add: edge_vectors_Inr_iff base_def)
    show ?thesis
    proof (cases "single_structure (tensors d)")
      case True
      with ps obtain c0 where "cell = [c0]"
        and v: "vectors = map2 (\<lambda>v off. vsub v (vmat off c0)) base offs"
        using periodic_shift_single [of d1 offs base, OF o1 len'] by auto
      then show ?thesis using True e len base_len base_e by simp
    next
      case False
      have lenn: "length (map snd es) = length base" by (simp add: base_len)
      from ps False have v: "vectors = map2 (\<lambda>v (off, n). vsub v (vmat off (cell ! nat (batch0 ! nat n))))
            base (zip offs (map snd es))"
        using periodic_shift_multi [of d1 offs base "map snd es", OF o1 len' lenn] by simp
      have "batch = batch0" if "tensors d BATCH = Some (Longs batch)" for batch
        using that eb(6) f(4) by auto
      then show ?thesis using False v e len base_len base_e ce by simp
    qed
  qed
  have A: "tensors d CELL = None \<longrightarrow>
      length vectors = length es \<and> vectors ! e = vsub (pos ! nat c) (pos ! nat n)"
    using no_cell by blast
  have B: "\<forall>cell offs.
      tensors d CELL = Some (Mats cell) \<and> tensors d CELL_OFFSETS = Some (Vecs offs)
      \<and> length offs = length es \<longrightarrow>
        length vectors = length es
        \<and> (single_structure (tensors d) \<longrightarrow>
             vectors ! e = vsub (vsub (pos ! nat c) (pos ! nat n)) (vmat (offs ! e) (cell ! 0)))
        \<and> (\<forall>batch. \<not> single_structure (tensors d)
               \<and> tensors d BATCH = Some (Longs batch) \<longrightarrow>
             vectors ! e = vsub (vsub (pos ! nat c) (pos ! nat n))
                             (vmat (offs ! e) (cell ! nat (batch ! nat n))))"
  proof (intro allI impI)
    fix cell offs
    assume h: "tensors d CELL = Some (Mats cell) \<and> tensors d CELL_OFFSETS = Some (Vecs offs)
              \<and> length offs = length es"
    from h have h1: "tensors d CELL = Some (Mats cell)"
      and h2: "tensors d CELL_OFFSETS = Some (Vecs offs)" and h3: "length offs = length es"
      by simp_all
    show "length vectors = length es
        \<and> (single_structure (tensors d) \<longrightarrow>
             vectors ! e = vsub (vsub (pos ! nat c) (pos ! nat n)) (vmat (offs ! e) (cell ! 0)))
        \<and> (\<forall>batch. \<not> single_structure (tensors d)
               \<and> tensors d BATCH = Some (Longs batch) \<longrightarrow>
             vectors ! e = vsub (vsub (pos ! nat c) (pos ! nat n))
                             (vmat (offs ! e) (cell ! nat (batch ! nat n))))"
      by (rule with_cell [OF h1 h2 h3])
  qed
  from stored A B show ?thesis
    by (intro exI [of _ vectors]) (rule conjI, assumption)+
qed


theorem edge_vector_formula_witness:
  "compute_edge_data example_batch True False = Inr example_result
   \<and> (\<exists>vs. tensors example_result EDGE_VECTOR = Some (Vecs vs)
         \<and> tensors example_result EDGE_LENGTH = Some (Nums (map vnorm vs))
         \<and> length vs = 3
         \<and> vs ! 1 = vsub (vsub (1, 0, 0) (0, 0, 0)) (vmat (1, 0, 0) ((2, 0, 0), (0, 2, 0), (0, 0, 2))))"
proof -
  have pos: "tensors example_batch POSITIONS = Some (Vecs [(0, 0, 0), (1, 0, 0), (0, 0, 0)])"
    and es: "tensors example_batch EDGE_INDEX = Some (Edges [(0, 1), (1, 0), (2, 2)])"
    and cell: "tensors example_batch CELL
        = Some (Mats [((2, 0, 0), (0, 2, 0), (0, 0, 2)), ((1, 0, 0), (0, 1, 0), (0, 0, 1))])"
    and offs: "tensors example_batch CELL_OFFSETS = Some (Vecs [(0, 0, 0), (1, 0, 0), (0, 1, 0)])"
    and batch: "tensors example_batch BATCH = Some (Longs [0, 0, 1])"
    by (simp_all add: example_batch_def keys_defs)
  have multi: "\<not> single_structure (tensors example_batch)"
    by (simp add: single_structure_def batch)
  have e: "(1::nat) < length [(0::int, 1::int), (1, 0), (2, 2)]"
    and ce: "[(0::int, 1::int), (1, 0), (2, 2)] ! 1 = (1, 0)"
    by simp_all
  from edge_vector_formula [OF example_run pos es e ce] obtain vs where
    v: "tensors example_result EDGE_VECTOR = Some (Vecs vs)"
    and l: "tensors example_result EDGE_LENGTH = Some (Nums (map vnorm vs))"
    and c: "\<forall>cell offs.
        tensors example_batch CELL = Some (Mats cell)
        \<and> tensors example_batch CELL_OFFSETS = Some (Vecs offs)
        \<and> length offs = length [(0::int, 1::int), (1, 0), (2, 2)] \<longrightarrow>
          length vs = length [(0::int, 1::int), (1, 0), (2, 2)]
          \<and> (single_structure (tensors example_batch) \<longrightarrow>
               vs ! 1 = vsub (vsub ([(0, 0, 0), (1, 0, 0), (0, 0, 0)] ! nat 1)
                                   ([(0, 0, 0), (1, 0, 0), (0, 0, 0)] ! nat 0))
                          (vmat (offs ! 1) (cell ! 0)))
          \<and> (\<forall>batch. \<not> single_structure (tensors example_batch)
                 \<and> tensors example_batch BATCH = Some (Longs batch) \<longrightarrow>
               vs ! 1 = vsub (vsub ([(0, 0, 0), (1, 0, 0), (0, 0, 0)] ! nat 1)
                                   ([(0, 0, 0), (1, 0, 0), (0, 0, 0)] ! nat 0))
                          (vmat (offs ! 1) (cell ! nat (batch ! nat 0))))"
    by blast
  from c [rule_format, OF conjI [OF cell conjI [OF offs]]] have
    len: "length vs = 3"
    and m: "\<forall>batch. \<not> single_structure (tensors example_batch)
                 \<and> tensors example_batch BATCH = Some (Longs batch) \<longrightarrow>
               vs ! 1 = vsub (vsub ([(0, 0, 0), (1, 0, 0), (0, 0, 0)] ! nat 1)
                                   ([(0, 0, 0), (1, 0, 0), (0, 0, 0)] ! nat 0))
                          (vmat ([(0, 0, 0), (1, 0, 0), (0, 1, 0)] ! 1)
                             ([((2, 0, 0), (0, 2, 0), (0, 0, 2)), ((1, 0, 0), (0, 1, 0), (0, 0, 1))]
                                ! nat (batch ! nat 0)))"
    by simp_all
  from m [rule_format, OF conjI [OF multi batch]] have
    "vs ! 1 = vsub (vsub (1, 0, 0) (0, 0, 0)) (vmat (1, 0, 0) ((2, 0, 0), (0, 2, 0), (0, 0, 2)))"
    by simp
  with v l len example_run show ?thesis by blast
qed

lemma edge_vectors_succeeds:
  assumes rng: "list_all (\<lambda>(c, n). 0 \<le> c \<and> c < int (length pos) \<and> 0 \<le> n \<and> n < int (length pos)) es"
    and cells: "has_cell \<Longrightarrow> d1 CELL_OFFSETS = Some (Vecs offs) \<and> length offs = length es
        \<and> (if single then length cell = 1
            else length batch = length pos
                 \<and> list_all (\<lambda>b. 0 \<le> b \<and> b < int (length cell)) batch)"
  shows "\<exists>vs. edge_vectors d1 single batch pos has_cell cell es = Inr vs \<and> length vs = length es"
proof (cases has_cell)
  case False
  with rng show ?thesis by (simp add: edge_vectors_Inr_iff)
next
  case True
  define base where "base = map (\<lambda>(c, n). vsub (pos ! nat c) (pos ! nat n)) es"
  have bl: "length base = length es" by (simp add: base_def)
  from cells [OF True] have o: "d1 CELL_OFFSETS = Some (Vecs offs)"
    and ol: "length offs = length base" by (simp_all add: bl)
  have "\<exists>vs. periodic_shift d1 single batch cell (map snd es) base = Inr vs
          \<and> length vs = length es"
  proof (cases single)
    case True
    with cells [OF \<open>has_cell\<close>] obtain c0 where "cell = [c0]"
      by (cases cell) auto
    moreover have "periodic_shift d1 True batch [c0] (map snd es) base
        = Inr (map2 (\<lambda>v off. vsub v (vmat off c0)) base offs)"
      using periodic_shift_single [of d1 offs base, OF o ol] by blast
    ultimately show ?thesis
      using True ol bl by simp
  next
    case False
    with cells [OF \<open>has_cell\<close>] have lb: "length batch = length pos"
      and cb: "list_all (\<lambda>b. 0 \<le> b \<and> b < int (length cell)) batch" by simp_all
    have nl: "length (map snd es) = length base" by (simp add: bl)
    from rng lb have n_ok: "list_all (\<lambda>i. 0 \<le> i \<and> i < int (length batch)) (map snd es)"
      by (induction es) auto
    have "0 \<le> batch ! nat i \<and> batch ! nat i < int (length cell)"
      if "0 \<le> i" "i < int (length batch)" for i
      using cb that by (simp add: list_all_length)
    with n_ok have c_ok: "list_all (\<lambda>i. 0 \<le> i \<and> i < int (length cell))
        (map (\<lambda>i. batch ! nat i) (map snd es))"
      by (induction es) auto
    have "periodic_shift d1 False batch cell (map snd es) base
        = Inr (map2 (\<lambda>v (off, n). vsub v (vmat off (cell ! nat (batch ! nat n))))
                 base (zip offs (map snd es)))"
      using n_ok c_ok periodic_shift_multi [of d1 offs base "map snd es", OF o ol nl] by blast
    then show ?thesis
      using False ol bl by simp
  qed
  with True rng show ?thesis
    by (simp add: edge_vectors_Inr_iff base_def)
qed

lemma well_formed_iff:
  "well_formed d \<longleftrightarrow>
     (\<exists>pos es. d POSITIONS = Some (Vecs pos) \<and> d EDGE_INDEX = Some (Edges es)
        \<and> list_all (\<lambda>(c, n). 0 \<le> c \<and> c < int (length pos) \<and> 0 \<le> n \<and> n < int (length pos)) es
        \<and> batches_ok d (length pos) (length es))"
proof (cases "d POSITIONS")
  case None
  then show ?thesis by (simp add: well_formed_def)
next
  case p: (Some pt)
  show ?thesis
  proof (cases "d EDGE_INDEX")
    case None
    with p show ?thesis by (cases pt) (simp_all add: well_formed_def)
  next
    case (Some et)
    with p show ?thesis by (cases pt; cases et) (simp_all add: well_formed_def)
  qed
qed

lemma cells_ok_iff:
  "cells_ok d S E \<longleftrightarrow>
     d CELL = None
     \<or> (\<exists>cell offs. d CELL = Some (Mats cell) \<and> length cell = S
           \<and> d CELL_OFFSETS = Some (Vecs offs) \<and> length offs = E)"
proof (cases "d CELL")
  case None
  then show ?thesis by (simp add: cells_ok_def)
next
  case c: (Some ct)
  show ?thesis
  proof (cases "d CELL_OFFSETS")
    case None
    with c show ?thesis by (cases ct) (simp_all add: cells_ok_def)
  next
    case (Some ot)
    with c show ?thesis by (cases ct; cases ot) (auto simp: cells_ok_def)
  qed
qed

lemma batches_ok_iff:
  "batches_ok d N E \<longleftrightarrow>
     (d BATCH = None \<and> cells_ok d 1 E)
     \<or> (\<exists>batch ptr. d BATCH = Some (Longs batch) \<and> d BATCH_PTR = Some (Longs ptr)
           \<and> batch \<noteq> [] \<and> length batch = N \<and> list_all (\<lambda>b. 0 \<le> b) batch
           \<and> Max (set batch) + 2 = int (length ptr) \<and> cells_ok d (length ptr - 1) E)"
proof (cases "d BATCH")
  case None
  then show ?thesis by (simp add: batches_ok_def)
next
  case b: (Some bt)
  show ?thesis
  proof (cases "d BATCH_PTR")
    case None
    with b show ?thesis by (cases bt) (simp_all add: batches_ok_def)
  next
    case (Some pt)
    with b show ?thesis by (cases bt; cases pt) (auto simp: batches_ok_def)
  qed
qed

lemma well_formed_succeeds:
  assumes wf: "well_formed (tensors d)"
  shows "\<exists>r vs. compute_edge_data d cf cv = Inr r
           \<and> tensors r EDGE_VECTOR = Some (Vecs vs)
           \<and> tensors r EDGE_LENGTH = Some (Nums (map vnorm vs))
           \<and> (\<forall>es. tensors d EDGE_INDEX = Some (Edges es) \<longrightarrow> length vs = length es)"
proof -
  from wf obtain pos es where
    p: "tensors d POSITIONS = Some (Vecs pos)" and e: "tensors d EDGE_INDEX = Some (Edges es)"
    and rng: "list_all (\<lambda>(c, n). 0 \<le> c \<and> c < int (length pos) \<and> 0 \<le> n \<and> n < int (length pos)) es"
    and bo: "batches_ok (tensors d) (length pos) (length es)"
    unfolding well_formed_iff by blast
  note rest = bo [unfolded batches_ok_iff]
  have "\<exists>d1 single batch ptr cell offs.
      ensure_batch (tensors d) (length pos) = Inr (d1, single)
      \<and> d1 BATCH = Some (Longs batch) \<and> d1 BATCH_PTR = Some ptr \<and> numel ptr \<noteq> 0
      \<and> (case d1 CELL of None \<Rightarrow> cell = [] | Some t \<Rightarrow> t = Mats cell)
      \<and> list_all (\<lambda>b. 0 \<le> b \<and> b < int (numel ptr - 1)) batch
      \<and> length pos = length batch
      \<and> (d1 CELL \<noteq> None \<longrightarrow> length cell = numel ptr - 1
            \<and> d1 CELL_OFFSETS = Some (Vecs offs) \<and> length offs = length es
            \<and> (single \<longrightarrow> length cell = 1))"
  proof (cases "tensors d BATCH")
    case None
    define d1 where "d1 = (tensors d)(BATCH \<mapsto> Longs (replicate (length pos) 0),
                                       BATCH_PTR \<mapsto> Longs [0, int (length pos)])"
    have eb: "ensure_batch (tensors d) (length pos) = Inr (d1, True)"
      by (simp add: ensure_batch_def None d1_def)
    have same: "d1 CELL = tensors d CELL" "d1 CELL_OFFSETS = tensors d CELL_OFFSETS"
      by (simp_all add: d1_def keys_defs)
    from rest None have ck: "cells_ok (tensors d) 1 (length es)" by simp
    note ck' = ck [unfolded cells_ok_iff]
    have b: "d1 BATCH = Some (Longs (replicate (length pos) 0))"
      "d1 BATCH_PTR = Some (Longs [0, int (length pos)])"
      by (simp_all add: d1_def keys_defs)
    have "\<exists>cell offs. (case d1 CELL of None \<Rightarrow> cell = [] | Some t \<Rightarrow> t = Mats cell)
        \<and> (d1 CELL \<noteq> None \<longrightarrow> length cell = 1
              \<and> d1 CELL_OFFSETS = Some (Vecs offs) \<and> length offs = length es)"
      using ck' unfolding same by auto
    with eb b show ?thesis
      by (intro exI [of _ d1] exI [of _ True] exI [of _ "replicate (length pos) 0"]
          exI [of _ "Longs [0, int (length pos)]"]) (auto simp: list_all_length)
  next
    case (Some bt)
    with rest obtain batch ptr where bt: "bt = Longs batch"
      and pt: "tensors d BATCH_PTR = Some (Longs ptr)"
      and ne: "batch \<noteq> []" and len: "length batch = length pos"
      and nonneg: "list_all (\<lambda>b. 0 \<le> b) batch"
      and mx: "Max (set batch) + 2 = int (length ptr)"
      and ck: "cells_ok (tensors d) (length ptr - 1) (length es)"
      by auto
    note ck' = ck [unfolded cells_ok_iff]
    have eb: "ensure_batch (tensors d) (length pos)
        = Inr (tensors d, Max (set batch) = 0)"
      using Some bt ne by (simp add: ensure_batch_def ebind_def as_longs_def)
    have upper: "b \<le> Max (set batch)" if "b \<in> set batch" for b
      using that by simp
    have "Max (set batch) \<in> set batch"
      using ne by simp
    with nonneg have mx0: "0 \<le> Max (set batch)"
      by (simp add: list_all_iff)
    with mx have lp2: "2 \<le> length ptr" by linarith
    then have lp: "int (length ptr - 1) = Max (set batch) + 1"
      using mx by (simp add: of_nat_diff)
    have in_range: "list_all (\<lambda>b. 0 \<le> b \<and> b < int (length ptr - 1)) batch"
      unfolding list_all_iff lp
    proof
      fix b assume "b \<in> set batch"
      with nonneg upper [of b] show "0 \<le> b \<and> b < Max (set batch) + 1"
        by (simp add: list_all_iff)
    qed
    have "\<exists>cell offs. (case tensors d CELL of None \<Rightarrow> cell = [] | Some t \<Rightarrow> t = Mats cell)
        \<and> (tensors d CELL \<noteq> None \<longrightarrow> length cell = length ptr - 1
              \<and> tensors d CELL_OFFSETS = Some (Vecs offs) \<and> length offs = length es)"
      using ck' by auto
    then obtain cell offs where
      c: "case tensors d CELL of None \<Rightarrow> cell = [] | Some t \<Rightarrow> t = Mats cell"
      and c': "tensors d CELL \<noteq> None \<longrightarrow> length cell = length ptr - 1
              \<and> tensors d CELL_OFFSETS = Some (Vecs offs) \<and> length offs = length es"
      by blast
    have single1: "Max (set batch) = 0 \<longrightarrow> length ptr - 1 = 1"
      using mx by auto
    show ?thesis
      apply (rule exI [of _ "tensors d"], rule exI [of _ "Max (set batch) = 0"],
          rule exI [of _ batch], rule exI [of _ "Longs ptr"], rule exI [of _ cell],
          rule exI [of _ offs])
      using eb Some bt pt c c' in_range len single1 lp2
      by auto
  qed
  then obtain d1 single batch ptr cell offs where
    eb: "ensure_batch (tensors d) (length pos) = Inr (d1, single)"
    and b: "d1 BATCH = Some (Longs batch)" "d1 BATCH_PTR = Some ptr" "numel ptr \<noteq> 0"
    and c: "case d1 CELL of None \<Rightarrow> cell = [] | Some t \<Rightarrow> t = Mats cell"
    and br: "list_all (\<lambda>b. 0 \<le> b \<and> b < int (numel ptr - 1)) batch"
    and bl: "length pos = length batch"
    and cc: "d1 CELL \<noteq> None \<longrightarrow> length cell = numel ptr - 1
            \<and> d1 CELL_OFFSETS = Some (Vecs offs) \<and> length offs = length es
            \<and> (single \<longrightarrow> length cell = 1)"
    by blast
  have "\<exists>vs. edge_vectors d1 single batch pos (d1 CELL \<noteq> None) cell es = Inr vs
          \<and> length vs = length es"
  proof (rule edge_vectors_succeeds [OF rng])
    assume hc: "d1 CELL \<noteq> None"
    with cc have o: "d1 CELL_OFFSETS = Some (Vecs offs)" and lo: "length offs = length es"
      and lc: "numel ptr - 1 = length cell" and s1: "single \<longrightarrow> length cell = 1"
      by auto
    show "d1 CELL_OFFSETS = Some (Vecs offs) \<and> length offs = length es
        \<and> (if single then length cell = 1
            else length batch = length pos
                 \<and> list_all (\<lambda>b. 0 \<le> b \<and> b < int (length cell)) batch)"
      using o lo s1 bl br unfolding lc by (cases single) simp_all
  qed
  then obtain vs where ev: "edge_vectors d1 single batch pos (d1 CELL \<noteq> None) cell es = Inr vs"
    and vl: "length vs = length es" by blast
  define r where "r = d\<lparr>tensors := d1(EDGE_LENGTH \<mapsto> Nums (map vnorm vs),
                               EDGE_VECTOR \<mapsto> Vecs vs,
                               STRAIN \<mapsto> Mats (replicate (numel ptr - 1) mzero)),
                graph := (graph d)(StrainLeaf := None)\<rparr>"
  have "compute_edge_data d cf cv = Inr r"
    unfolding compute_edge_data_Inr_iff
    apply (rule exI [of _ pos], rule exI [of _ es], rule exI [of _ d1], rule exI [of _ single],
        rule exI [of _ batch], rule exI [of _ ptr], rule exI [of _ cell], rule exI [of _ vs])
    using p e eb b c br bl cc ev by (simp add: r_def)
  moreover have "tensors r EDGE_VECTOR = Some (Vecs vs)"
    "tensors r EDGE_LENGTH = Some (Nums (map vnorm vs))"
    by (simp_all add: r_def keys_defs)
  ultimately show ?thesis using e vl by auto
qed


lemma virial_run_implies_plain_run:
  assumes "compute_edge_data d cf True = Inr d'"
  shows "compute_edge_data d cf False = Inr d'"
proof -
  from assms obtain pos es d1 single batch ptr cell vectors where
    f: "tensors d POSITIONS = Some (Vecs pos)" "tensors d EDGE_INDEX = Some (Edges es)"
      "ensure_batch (tensors d) (length pos) = Inr (d1, single)"
      "d1 BATCH = Some (Longs batch)" "d1 BATCH_PTR = Some ptr" "numel ptr \<noteq> 0"
      "case d1 CELL of None \<Rightarrow> cell = [] | Some t \<Rightarrow> t = Mats cell"
      "edge_vectors d1 single batch pos (d1 CELL \<noteq> None) cell es = Inr vectors"
      "d' = d\<lparr>tensors := d1(EDGE_LENGTH \<mapsto> Nums (map vnorm vectors),
                               EDGE_VECTOR \<mapsto> Vecs vectors,
                               STRAIN \<mapsto> Mats (replicate (numel ptr - 1) mzero)),
                graph := (graph d)(StrainLeaf := None)\<rparr>"
    unfolding compute_edge_data_Inr_iff by blast
  show ?thesis
    unfolding compute_edge_data_Inr_iff
    apply (rule exI [of _ pos], rule exI [of _ es], rule exI [of _ d1], rule exI [of _ single],
        rule exI [of _ batch], rule exI [of _ ptr], rule exI [of _ cell], rule exI [of _ vectors])
    using f by simp
qed

lemma edge_data_keeps_inputs:
  assumes "compute_edge_data d cf cv = Inr d'"
  shows "tensors d' POSITIONS = tensors d POSITIONS \<and> tensors d' CELL = tensors d CELL"
proof (rule edge_data_fields [OF assms])
  fix pos d1 ptr vectors
  assume eb: "ensure_batch (tensors d) (length pos) = Inr (d1, single_structure (tensors d))"
    and t: "tensors d' = d1(EDGE_LENGTH \<mapsto> Nums (map vnorm vectors), EDGE_VECTOR \<mapsto> Vecs vectors,
                     STRAIN \<mapsto> Mats (replicate (numel ptr - 1) mzero))"
  from ensure_batch_facts(2,4) [OF eb] t show ?thesis
    by (simp add: keys_defs)
qed

text \<open>
  Claim C4. Whenever edge preparation with \<open>compute_virial\<close> returns, the run without
  it returns the very same batch (the same \<open>edge_vector\<close>, \<open>edge_length\<close>, \<open>strain\<close>
  and all other fields); a run without \<open>compute_virial\<close> leaves \<open>pos\<close> and \<open>cell\<close> as
  they were; and on a well-formed batch both runs return. Scalars are exact reals
  here, so the deformation by the zero strain is the identity exactly.
\<close>

theorem strain_identity:
  "(compute_edge_data d cf True = Inr d' \<longrightarrow> compute_edge_data d cf False = Inr d')
   \<and> (compute_edge_data d cf False = Inr d' \<longrightarrow>
        tensors d' POSITIONS = tensors d POSITIONS \<and> tensors d' CELL = tensors d CELL)
   \<and> (well_formed (tensors d) \<longrightarrow>
        (\<exists>r. compute_edge_data d cf True = Inr r \<and> compute_edge_data d cf False = Inr r))"
proof (intro conjI impI)
  assume "compute_edge_data d cf True = Inr d'"
  then show "compute_edge_data d cf False = Inr d'"
    by (rule virial_run_implies_plain_run)
next
  assume a: "compute_edge_data d cf False = Inr d'"
  show "tensors d' POSITIONS = tensors d POSITIONS"
    using edge_data_keeps_inputs [OF a] by simp
  show "tensors d' CELL = tensors d CELL"
    using edge_data_keeps_inputs [OF a] by simp
next
  assume "well_formed (tensors d)"
  from well_formed_succeeds [OF this, of cf True]
  obtain r where "compute_edge_data d cf True = Inr r" by blast
  with virial_run_implies_plain_run [OF this]
  show "\<exists>r. compute_edge_data d cf True = Inr r \<and> compute_edge_data d cf False = Inr r"
    by blast
qed

theorem strain_identity_witness:
  "well_formed (tensors example_batch)
   \<and> compute_edge_data example_batch True True = Inr example_result
   \<and> compute_edge_data example_batch True False = Inr example_result
   \<and> tensors example_result POSITIONS = tensors example_batch POSITIONS
   \<and> tensors example_result CELL = tensors example_batch CELL"
  using strain_identity [of example_batch True example_result] example_run_virial example_wf
  by simp

text \<open>
  Claim C9. On a well-formed batch whose \<open>edge_index\<close> is empty, edge preparation
  returns, with empty \<open>edge_vector\<close> and \<open>edge_length\<close>, whether or not the batch has
  a cell and for both settings of either flag.
\<close>

theorem zero_edges_safe:
  assumes "well_formed (tensors d)" and "tensors d EDGE_INDEX = Some (Edges [])"
  shows "\<exists>r. compute_edge_data d cf cv = Inr r
           \<and> tensors r EDGE_VECTOR = Some (Vecs [])
           \<and> tensors r EDGE_LENGTH = Some (Nums [])"
proof -
  from well_formed_succeeds [OF assms(1), of cf cv] obtain r vs where
    r: "compute_edge_data d cf cv = Inr r" "tensors r EDGE_VECTOR = Some (Vecs vs)"
      "tensors r EDGE_LENGTH = Some (Nums (map vnorm vs))"
    and l: "\<forall>es. tensors d EDGE_INDEX = Some (Edges es) \<longrightarrow> length vs = length es"
    by blast
  from l assms(2) have "vs = []" by simp
  with r show ?thesis by simp
qed

theorem zero_edges_safe_witness:
  "well_formed (tensors example_isolated)
   \<and> tensors example_isolated EDGE_INDEX = Some (Edges [])
   \<and> (\<exists>r. compute_edge_data example_isolated True True = Inr r
         \<and> tensors r EDGE_VECTOR = Some (Vecs [])
         \<and> tensors r EDGE_LENGTH = Some (Nums []))
   \<and> well_formed (tensors example_molecule)
   \<and> tensors example_molecule EDGE_INDEX = Some (Edges [])
   \<and> (\<exists>r. compute_edge_data example_molecule True False = Inr r
         \<and> tensors r EDGE_VECTOR = Some (Vecs [])
         \<and> tensors r EDGE_LENGTH = Some (Nums []))"
proof -
  have w1: "well_formed (tensors example_isolated)"
    and e1: "tensors example_isolated EDGE_INDEX = Some (Edges [])"
    by (simp_all add: example_isolated_def well_formed_def batches_ok_def cells_ok_def keys_defs)
  have w2: "well_formed (tensors example_molecule)"
    and e2: "tensors example_molecule EDGE_INDEX = Some (Edges [])"
    by (simp_all add: example_molecule_def well_formed_def batches_ok_def cells_ok_def keys_defs)
  from zero_edges_safe [OF w1 e1, of True True] zero_edges_safe [OF w2 e2, of True False] w1 e1 w2 e2
  show ?thesis by blast
qed

text \<open>
  Claim C6. The body of \<open>if compute_virial\<close>, for any strain tensor: every atom \<open>a\<close>
  moves to \<open>pos[a] + pos[a] \<cdot> sym(strain[batch[a]])\<close> and, when a cell is present,
  every cell \<open>s\<close> becomes \<open>cell[s] + cell[s] \<cdot> sym(strain[s])\<close>, where
  \<open>sym(m) = 0.5 * (m + m\<^sup>T)\<close>. Edge preparation applies it to the strain it
  creates, one zero matrix per structure.
\<close>

theorem strain_deformation:
  assumes "apply_strain strain batch pos has_cell cell = Inr (pos', cell')"
  shows "length pos' = length pos
         \<and> (\<forall>a < length pos.
               pos' ! a = vadd (pos ! a) (vmat (pos ! a) (symmetrize (strain ! nat (batch ! a)))))
         \<and> (has_cell \<longrightarrow> length cell' = length cell
               \<and> (\<forall>s < length cell.
                     cell' ! s = madd (cell ! s) (mmul (cell ! s) (symmetrize (strain ! s)))))
         \<and> (\<not> has_cell \<longrightarrow> cell' = cell)
         \<and> (\<forall>m. symmetrize m = mscale (1 / 2) (madd m (mtranspose m)))
         \<and> (\<forall>d cf d'. compute_edge_data d cf True = Inr d' \<longrightarrow>
               (\<exists>S bs ps cs. tensors d' STRAIN = Some (Mats (replicate S mzero))
                  \<and> tensors d' BATCH = Some (Longs bs) \<and> tensors d POSITIONS = Some (Vecs ps)
                  \<and> apply_strain (replicate S mzero) bs ps (tensors d CELL \<noteq> None) cs
                      = Inr (ps, cs)))"
proof -
  from assms have sel: "list_all (\<lambda>i. 0 \<le> i \<and> i < int (length strain)) batch"
    and lp: "length pos = length batch"
    and p': "pos' = map2 vadd pos (map2 vmat pos (map (\<lambda>i. map symmetrize strain ! nat i) batch))"
    and c': "if has_cell
             then length cell = length strain
                  \<and> cell' = map2 madd cell (map2 mmul cell (map symmetrize strain))
             else cell' = cell"
    unfolding apply_strain_def Let_def
    by (auto simp: ebind_Inr_iff index_select_Inr_iff bmm_Inr_iff split: if_splits)
  have 1: "length pos' = length pos" by (simp add: p' lp)
  have 2: "\<forall>a < length pos.
      pos' ! a = vadd (pos ! a) (vmat (pos ! a) (symmetrize (strain ! nat (batch ! a))))"
  proof (intro allI impI)
    fix a assume a: "a < length pos"
    with lp sel have "0 \<le> batch ! a \<and> batch ! a < int (length strain)"
      by (simp add: list_all_length)
    then have "nat (batch ! a) < length strain" by linarith
    with a lp show "pos' ! a = vadd (pos ! a) (vmat (pos ! a) (symmetrize (strain ! nat (batch ! a))))"
      by (simp add: p')
  qed
  have 3: "has_cell \<longrightarrow> length cell' = length cell
      \<and> (\<forall>s < length cell. cell' ! s = madd (cell ! s) (mmul (cell ! s) (symmetrize (strain ! s))))"
    using c' by simp
  have 4: "\<not> has_cell \<longrightarrow> cell' = cell" using c' by simp
  have 5: "\<forall>m. symmetrize m = mscale (1 / 2) (madd m (mtranspose m))"
    by (simp add: symmetrize_def)
  have 6: "\<forall>d cf d'. compute_edge_data d cf True = Inr d' \<longrightarrow>
      (\<exists>S bs ps cs. tensors d' STRAIN = Some (Mats (replicate S mzero))
         \<and> tensors d' BATCH = Some (Longs bs) \<and> tensors d POSITIONS = Some (Vecs ps)
         \<and> apply_strain (replicate S mzero) bs ps (tensors d CELL \<noteq> None) cs = Inr (ps, cs))"
  proof (intro allI impI)
    fix d :: data and cf d'
    assume run: "compute_edge_data d cf True = Inr d'"
    show "\<exists>S bs ps cs. tensors d' STRAIN = Some (Mats (replicate S mzero))
         \<and> tensors d' BATCH = Some (Longs bs) \<and> tensors d POSITIONS = Some (Vecs ps)
         \<and> apply_strain (replicate S mzero) bs ps (tensors d CELL \<noteq> None) cs = Inr (ps, cs)"
    proof (rule edge_data_fields [OF run])
      fix ps d1 bs ptr vectors and cs :: "mat3 list"
      assume f: "tensors d POSITIONS = Some (Vecs ps)"
        "d1 BATCH = Some (Longs bs)"
        "True \<Longrightarrow> list_all (\<lambda>b. 0 \<le> b \<and> b < int (numel ptr - 1)) bs
            \<and> length ps = length bs
            \<and> (tensors d CELL \<noteq> None \<longrightarrow> length cs = numel ptr - 1)"
        "tensors d' = d1(EDGE_LENGTH \<mapsto> Nums (map vnorm vectors), EDGE_VECTOR \<mapsto> Vecs vectors,
                     STRAIN \<mapsto> Mats (replicate (numel ptr - 1) mzero))"
      have "tensors d' STRAIN = Some (Mats (replicate (numel ptr - 1) mzero))"
        "tensors d' BATCH = Some (Longs bs)"
        using f(2,4) by (simp_all add: keys_defs)
      moreover have "apply_strain (replicate (numel ptr - 1) mzero) bs ps (tensors d CELL \<noteq> None) cs
          = Inr (ps, cs)"
        unfolding apply_strain_zero_iff using f(3) by simp
      ultimately show ?thesis
        using f(1) by blast
    qed
  qed
  from 1 2 3 4 5 6 show ?thesis by blast
qed

theorem strain_deformation_witness:
  "apply_strain [((0, 2, 0), (0, 0, 0), (0, 0, 0))] [0, 0] [(1, 0, 0), (0, 1, 0)] True
       [((1, 0, 0), (0, 1, 0), (0, 0, 1))]
     = Inr ([(1, 1, 0), (1, 1, 0)], [((1, 1, 0), (1, 1, 0), (0, 0, 1))])
   \<and> symmetrize ((0, 2, 0), (0, 0, 0), (0, 0, 0)) = ((0, 1, 0), (1, 0, 0), (0, 0, 0))
   \<and> [(1, 1, 0), (1, 1, 0)] ! 1
       = vadd (0, 1, 0) (vmat (0, 1, 0) (symmetrize ((0, 2, 0), (0, 0, 0), (0, 0, 0))))"
proof -
  have run: "apply_strain [((0, 2, 0), (0, 0, 0), (0, 0, 0))] [0, 0] [(1, 0, 0), (0, 1, 0)] True
       [((1, 0, 0), (0, 1, 0), (0, 0, 1))]
     = Inr ([(1, 1, 0), (1, 1, 0)], [((1, 1, 0), (1, 1, 0), (0, 0, 1))])"
    by (simp add: run_defs)
  have one: "(1::nat) < length [(1::real, 0::real, 0::real), (0, 1, 0)]"
    by simp
  from strain_deformation [OF run, THEN conjunct2, THEN conjunct1, rule_format, OF one] have
    "[(1, 1, 0), (1, 1, 0)] ! 1
       = vadd ([(1, 0, 0), (0, 1, 0)] ! 1) (vmat ([(1, 0, 0), (0, 1, 0)] ! 1)
           (symmetrize ([((0, 2, 0), (0, 0, 0), (0, 0, 0))] ! nat ([0, 0] ! 1))))" .
  then have "[(1, 1, 0), (1, 1, 0)] ! 1
       = vadd (0, 1, 0) (vmat (0, 1, 0) (symmetrize ((0, 2, 0), (0, 0, 0), (0, 0, 0))))"
    by simp
  moreover have "symmetrize ((0, 2, 0), (0, 0, 0), (0, 0, 0)) = ((0, 1, 0), (1, 0, 0), (0, 0, 0))"
    by (simp add: symmetrize_def)
  ultimately show ?thesis using run by blast
qed

lemma vmat_vadd: "vmat (vadd u v) M = vadd (vmat u M) (vmat v M)"
  by (cases u; cases v; cases M rule: prod_cases3)
     (auto simp: algebra_simps split: prod.splits)

lemma vmat_vscale: "vmat (vscale s u) M = vscale s (vmat u M)"
  by (cases u; cases M rule: prod_cases3)
     (auto simp: algebra_simps split: prod.splits)

lemma vmat_vzero: "vmat vzero M = vzero"
  by (cases M rule: prod_cases3) (auto simp: vzero_def split: prod.splits)

lemma vmat_adjust_offset:
  "vmat (adjust_offset s a kv e off) M
     = vadd (vmat off M) (vadd (if snd e = a then vscale s (vmat kv M) else vzero)
                               (if fst e = a then vscale (- s) (vmat kv M) else vzero))"
  by (simp add: adjust_offset_def vmat_vadd vmat_vscale vmat_vzero)

lemma shifted_edge:
  assumes "0 \<le> c" and "0 \<le> n" and "a < length pos"
    and "nat c < length pos" and "nat n < length pos"
    and "c = int a \<or> n = int a \<longrightarrow> M' = M"
  shows "vsub (vsub (pos[a := vadd (pos ! a) (vmat kv M)] ! nat c)
                    (pos[a := vadd (pos ! a) (vmat kv M)] ! nat n))
              (vmat (adjust_offset (- 1) (int a) kv (c, n) off) M')
         = vsub (vsub (pos ! nat c) (pos ! nat n)) (vmat off M')"
proof -
  obtain p1 p2 p3 where p: "pos ! a = (p1, p2, p3)" by (cases "pos ! a")
  obtain q1 q2 q3 where q: "pos ! nat c = (q1, q2, q3)" by (cases "pos ! nat c")
  obtain r1 r2 r3 where r: "pos ! nat n = (r1, r2, r3)" by (cases "pos ! nat n")
  obtain w1 w2 w3 where w: "vmat kv M = (w1, w2, w3)" by (cases "vmat kv M")
  obtain x1 x2 x3 where x: "vmat off M' = (x1, x2, x3)" by (cases "vmat off M'")
  have ca: "nat c = a \<longleftrightarrow> c = int a" using assms(1) by auto
  have na: "nat n = a \<longleftrightarrow> n = int a" using assms(2) by auto
  consider (both) "c = int a" "n = int a" | (center) "c = int a" "n \<noteq> int a"
    | (neighbor) "c \<noteq> int a" "n = int a" | (neither) "c \<noteq> int a" "n \<noteq> int a"
    by blast
  then show ?thesis
  proof cases
    case both
    with assms(6) have "M' = M" by simp
    with both assms(3) p w x show ?thesis
      by (simp add: vmat_adjust_offset vzero_def)
  next
    case center
    with assms(6) have "M' = M" by simp
    with center assms(3,5) p r w x na show ?thesis
      by (simp add: vmat_adjust_offset vzero_def)
  next
    case neighbor
    with assms(6) have "M' = M" by simp
    with neighbor assms(3,4) p q w x ca show ?thesis
      by (simp add: vmat_adjust_offset vzero_def)
  next
    case neither
    with assms(3,4,5) q r x ca na show ?thesis
      by (simp add: vmat_adjust_offset vzero_def)
  qed
qed

lemma ensure_batch_update:
  assumes "k \<noteq> BATCH" and "k \<noteq> BATCH_PTR" and "ensure_batch d n = Inr (d1, s)"
  shows "ensure_batch (d(k \<mapsto> v)) n = Inr (d1(k \<mapsto> v), s)"
  using assms unfolding ensure_batch_Inr_iff
  by (auto simp: fun_upd_twist)


lemma shifted_vectors_single:
  assumes rng: "list_all (\<lambda>(c, n). 0 \<le> c \<and> c < int (length pos) \<and> 0 \<le> n \<and> n < int (length pos)) es"
    and a: "a < length pos" and len: "length offs = length es"
    and pos2: "pos2 = pos[a := vadd (pos ! a) (vmat kv M)]"
  shows "map2 (\<lambda>v off. vsub v (vmat off M))
           (map (\<lambda>(c, n). vsub (pos2 ! nat c) (pos2 ! nat n)) es)
           (map2 (adjust_offset (- 1) (int a) kv) es offs)
         = map2 (\<lambda>v off. vsub v (vmat off M))
             (map (\<lambda>(c, n). vsub (pos ! nat c) (pos ! nat n)) es) offs"
proof (rule nth_equalityI)
  show "length (map2 (\<lambda>v off. vsub v (vmat off M))
           (map (\<lambda>(c, n). vsub (pos2 ! nat c) (pos2 ! nat n)) es)
           (map2 (adjust_offset (- 1) (int a) kv) es offs))
      = length (map2 (\<lambda>v off. vsub v (vmat off M))
             (map (\<lambda>(c, n). vsub (pos ! nat c) (pos ! nat n)) es) offs)"
    using len by simp
next
  fix i
  assume "i < length (map2 (\<lambda>v off. vsub v (vmat off M))
           (map (\<lambda>(c, n). vsub (pos2 ! nat c) (pos2 ! nat n)) es)
           (map2 (adjust_offset (- 1) (int a) kv) es offs))"
  then have i: "i < length es" using len by simp
  obtain c n where e: "es ! i = (c, n)" by (cases "es ! i")
  from rng i e have r: "0 \<le> c" "0 \<le> n" "nat c < length pos" "nat n < length pos"
    by (auto simp: list_all_length)
  have "vsub (vsub (pos2 ! nat c) (pos2 ! nat n)) (vmat (adjust_offset (- 1) (int a) kv (c, n) (offs ! i)) M)
      = vsub (vsub (pos ! nat c) (pos ! nat n)) (vmat (offs ! i) M)"
    unfolding pos2 by (rule shifted_edge [OF r(1,2) a r(3,4)]) simp
  with i len e show "map2 (\<lambda>v off. vsub v (vmat off M))
           (map (\<lambda>(c, n). vsub (pos2 ! nat c) (pos2 ! nat n)) es)
           (map2 (adjust_offset (- 1) (int a) kv) es offs) ! i
      = map2 (\<lambda>v off. vsub v (vmat off M))
             (map (\<lambda>(c, n). vsub (pos ! nat c) (pos ! nat n)) es) offs ! i"
    by simp
qed

lemma shifted_vectors_multi:
  assumes rng: "list_all (\<lambda>(c, n). 0 \<le> c \<and> c < int (length pos) \<and> 0 \<le> n \<and> n < int (length pos)) es"
    and a: "a < length pos" and len: "length offs = length es"
    and pos2: "pos2 = pos[a := vadd (pos ! a) (vmat kv M)]"
    and own: "list_all (\<lambda>(c, n). c = int a \<or> n = int a \<longrightarrow> cell ! nat (batch ! nat n) = M) es"
  shows "map2 (\<lambda>v (off, n). vsub v (vmat off (cell ! nat (batch ! nat n))))
           (map (\<lambda>(c, n). vsub (pos2 ! nat c) (pos2 ! nat n)) es)
           (zip (map2 (adjust_offset (- 1) (int a) kv) es offs) (map snd es))
         = map2 (\<lambda>v (off, n). vsub v (vmat off (cell ! nat (batch ! nat n))))
             (map (\<lambda>(c, n). vsub (pos ! nat c) (pos ! nat n)) es)
             (zip offs (map snd es))"
proof (rule nth_equalityI)
  show "length (map2 (\<lambda>v (off, n). vsub v (vmat off (cell ! nat (batch ! nat n))))
           (map (\<lambda>(c, n). vsub (pos2 ! nat c) (pos2 ! nat n)) es)
           (zip (map2 (adjust_offset (- 1) (int a) kv) es offs) (map snd es)))
      = length (map2 (\<lambda>v (off, n). vsub v (vmat off (cell ! nat (batch ! nat n))))
             (map (\<lambda>(c, n). vsub (pos ! nat c) (pos ! nat n)) es)
             (zip offs (map snd es)))"
    using len by simp
next
  fix i
  assume "i < length (map2 (\<lambda>v (off, n). vsub v (vmat off (cell ! nat (batch ! nat n))))
           (map (\<lambda>(c, n). vsub (pos2 ! nat c) (pos2 ! nat n)) es)
           (zip (map2 (adjust_offset (- 1) (int a) kv) es offs) (map snd es)))"
  then have i: "i < length es" using len by simp
  obtain c n where e: "es ! i = (c, n)" by (cases "es ! i")
  from rng i e have r: "0 \<le> c" "0 \<le> n" "nat c < length pos" "nat n < length pos"
    by (auto simp: list_all_length)
  from own i e have o: "c = int a \<or> n = int a \<longrightarrow> cell ! nat (batch ! nat n) = M"
    by (auto simp: list_all_length)
  have "vsub (vsub (pos2 ! nat c) (pos2 ! nat n))
          (vmat (adjust_offset (- 1) (int a) kv (c, n) (offs ! i)) (cell ! nat (batch ! nat n)))
      = vsub (vsub (pos ! nat c) (pos ! nat n)) (vmat (offs ! i) (cell ! nat (batch ! nat n)))"
    unfolding pos2 by (rule shifted_edge [OF r(1,2) a r(3,4) o])
  with i len e show "map2 (\<lambda>v (off, n). vsub v (vmat off (cell ! nat (batch ! nat n))))
           (map (\<lambda>(c, n). vsub (pos2 ! nat c) (pos2 ! nat n)) es)
           (zip (map2 (adjust_offset (- 1) (int a) kv) es offs) (map snd es)) ! i
      = map2 (\<lambda>v (off, n). vsub v (vmat off (cell ! nat (batch ! nat n))))
             (map (\<lambda>(c, n). vsub (pos ! nat c) (pos ! nat n)) es)
             (zip offs (map snd es)) ! i"
    by simp
qed

text \<open>
  Claim C7, amended. The edge vector is \<open>pos[center] - pos[neighbor] - offset \<cdot> cell\<close>,
  so a translation of atom \<open>a\<close> by \<open>k \<cdot> cell\<close> is undone in the offsets by
  \<^emph>\<open>subtracting\<close> \<open>k\<close> where \<open>a\<close> is the neighbor and \<^emph>\<open>adding\<close> \<open>k\<close> where \<open>a\<close> is the
  center (\<open>translate_atom (-1)\<close>). With that adjustment, on a periodic batch with one
  offset per edge whose edges stay within one structure, edge preparation returns
  again and \<open>edge_vector\<close> and \<open>edge_length\<close> are unchanged for all edges.
\<close>

theorem periodic_shift_invariance:
  assumes run: "compute_edge_data d cf cv = Inr r"
    and pos: "tensors d POSITIONS = Some (Vecs pos)" and a: "a < length pos"
    and es: "tensors d EDGE_INDEX = Some (Edges es)"
    and cell: "tensors d CELL = Some (Mats cell)"
    and offs: "tensors d CELL_OFFSETS = Some (Vecs offs)" and len: "length offs = length es"
    and same: "\<forall>batch. tensors d BATCH = Some (Longs batch) \<and> \<not> single_structure (tensors d)
                 \<longrightarrow> list_all (\<lambda>(c, n). batch ! nat c = batch ! nat n) es"
  shows "\<exists>r'. compute_edge_data (d\<lparr>tensors := translate_atom (- 1) a k (tensors d)\<rparr>) cf cv = Inr r'
           \<and> tensors r' EDGE_LENGTH = tensors r EDGE_LENGTH
           \<and> tensors r' EDGE_VECTOR = tensors r EDGE_VECTOR"
proof -
  from run obtain pos0 es0 d1 single batch ptr cell0 vectors where
    f: "tensors d POSITIONS = Some (Vecs pos0)" "tensors d EDGE_INDEX = Some (Edges es0)"
      "ensure_batch (tensors d) (length pos0) = Inr (d1, single)"
      "d1 BATCH = Some (Longs batch)" "d1 BATCH_PTR = Some ptr" "numel ptr \<noteq> 0"
      "case d1 CELL of None \<Rightarrow> cell0 = [] | Some t \<Rightarrow> t = Mats cell0"
      "cv \<longrightarrow> list_all (\<lambda>b. 0 \<le> b \<and> b < int (numel ptr - 1)) batch
                \<and> length pos0 = length batch
                \<and> (d1 CELL \<noteq> None \<longrightarrow> length cell0 = numel ptr - 1)"
      "edge_vectors d1 single batch pos0 (d1 CELL \<noteq> None) cell0 es0 = Inr vectors"
      "r = d\<lparr>tensors := d1(EDGE_LENGTH \<mapsto> Nums (map vnorm vectors),
                               EDGE_VECTOR \<mapsto> Vecs vectors,
                               STRAIN \<mapsto> Mats (replicate (numel ptr - 1) mzero)),
                graph := (graph d)(StrainLeaf := None)\<rparr>"
    unfolding compute_edge_data_Inr_iff by blast
  from f(1,2) pos es have [simp]: "pos0 = pos" "es0 = es" by simp_all
  note eb = ensure_batch_facts [OF f(3)]
  from eb(2) cell have c1: "d1 CELL = Some (Mats cell)" by simp
  with f(7) have [simp]: "cell0 = cell" by simp
  from eb(3) offs have o1: "d1 CELL_OFFSETS = Some (Vecs offs)" by simp
  define kv where "kv = lattice_vec k"
  define M where "M = own_cell (tensors d) a cell"
  define pos2 where "pos2 = pos[a := vadd (pos ! a) (vmat kv M)]"
  define offs2 where "offs2 = map2 (adjust_offset (- 1) (int a) kv) es offs"
  define base where "base = map (\<lambda>(c, n). vsub (pos ! nat c) (pos ! nat n)) es"
  define base2 where "base2 = map (\<lambda>(c, n). vsub (pos2 ! nat c) (pos2 ! nat n)) es"
  have T: "translate_atom (- 1) a k (tensors d)
      = (tensors d)(POSITIONS \<mapsto> Vecs pos2, CELL_OFFSETS \<mapsto> Vecs offs2)"
    by (simp add: translate_atom_def pos es cell offs pos2_def offs2_def kv_def M_def)
  define d1' where "d1' = d1(POSITIONS \<mapsto> Vecs pos2, CELL_OFFSETS \<mapsto> Vecs offs2)"
  have lp: "length pos2 = length pos" by (simp add: pos2_def)
  have lo: "length offs2 = length es" by (simp add: offs2_def len)
  have eb': "ensure_batch (translate_atom (- 1) a k (tensors d)) (length pos2) = Inr (d1', single)"
    unfolding T d1'_def lp
    by (intro ensure_batch_update) (use f(3) in \<open>simp_all add: keys_defs\<close>)
  have same_fields: "d1' BATCH = Some (Longs batch)" "d1' BATCH_PTR = Some ptr"
    "d1' CELL = Some (Mats cell)" "d1' CELL_OFFSETS = Some (Vecs offs2)"
    using f(4,5) c1 by (simp_all add: d1'_def keys_defs)
  from f(9) c1 have rng: "list_all (\<lambda>(c, n). 0 \<le> c \<and> c < int (length pos) \<and> 0 \<le> n
        \<and> n < int (length pos)) es"
    and ps: "periodic_shift d1 single batch cell (map snd es) base = Inr vectors"
    by (simp_all add: edge_vectors_Inr_iff base_def)
  have bl: "length offs = length base" "length offs2 = length base2"
    "length (map snd es) = length base" "length (map snd es) = length base2"
    by (simp_all add: base_def base2_def len lo)
  have ps': "periodic_shift d1' single batch cell (map snd es) base2 = Inr vectors"
  proof (cases single)
    case True
    with ps have "periodic_shift d1 True batch cell (map snd es) base = Inr vectors"
      by simp
    then have "\<exists>c. cell = [c] \<and> vectors = map2 (\<lambda>v off. vsub v (vmat off c)) base offs"
      unfolding periodic_shift_single [of d1 offs base, OF o1 bl(1)] .
    then obtain c0 where c0: "cell = [c0]"
      and v: "vectors = map2 (\<lambda>v off. vsub v (vmat off c0)) base offs"
      by (elim exE conjE)
    from True eb(1) c0 have M0: "M = c0" by (simp add: M_def own_cell_def)
    have "map2 (\<lambda>v off. vsub v (vmat off c0)) base2 offs2 = vectors"
      unfolding v base_def base2_def offs2_def M0 [symmetric]
      by (rule shifted_vectors_single [OF rng a len pos2_def])
    then have "\<exists>c. cell = [c] \<and> vectors = map2 (\<lambda>v off. vsub v (vmat off c)) base2 offs2"
      using c0 by (intro exI [of _ c0]) simp
    then have "periodic_shift d1' True batch cell (map snd es) base2 = Inr vectors"
      unfolding periodic_shift_single [of d1' offs2 base2, OF same_fields(4) bl(2)] .
    with True show ?thesis by simp
  next
    case False
    with ps have "periodic_shift d1 False batch cell (map snd es) base = Inr vectors"
      by simp
    note parts = this [unfolded periodic_shift_multi [of d1 offs base "map snd es", OF o1 bl(1,3)]]
    from parts have nb: "list_all (\<lambda>i. 0 \<le> i \<and> i < int (length batch)) (map snd es)"
      by (rule conjunct1)
    from parts have cb: "list_all (\<lambda>i. 0 \<le> i \<and> i < int (length cell))
        (map (\<lambda>i. batch ! nat i) (map snd es))"
      by (rule conjunct2 [THEN conjunct1])
    from parts have v: "vectors = map2 (\<lambda>v (off, n). vsub v (vmat off (cell ! nat (batch ! nat n))))
                  base (zip offs (map snd es))"
      by (rule conjunct2 [THEN conjunct2])
    from False eb(1) have ns: "\<not> single_structure (tensors d)" by simp
    then have "tensors d BATCH \<noteq> None" by (auto simp: single_structure_def split: option.splits)
    with eb(6) f(4) have db: "tensors d BATCH = Some (Longs batch)" by simp
    with ns have M0: "M = cell ! nat (batch ! a)" by (simp add: M_def own_cell_def)
    from same db ns have sm: "list_all (\<lambda>(c, n). batch ! nat c = batch ! nat n) es" by blast
    have own: "list_all (\<lambda>(c, n). c = int a \<or> n = int a \<longrightarrow> cell ! nat (batch ! nat n) = M) es"
      unfolding list_all_length
    proof (intro allI impI)
      fix i assume i: "i < length es"
      obtain c n where e: "es ! i = (c, n)" by (cases "es ! i")
      from sm i e have "batch ! nat c = batch ! nat n" by (auto simp: list_all_length)
      then show "case es ! i of (c, n) \<Rightarrow> c = int a \<or> n = int a \<longrightarrow> cell ! nat (batch ! nat n) = M"
        unfolding e M0 by auto
    qed
    have "map2 (\<lambda>v (off, n). vsub v (vmat off (cell ! nat (batch ! nat n))))
            base2 (zip offs2 (map snd es)) = vectors"
      unfolding v base_def base2_def offs2_def
      by (rule shifted_vectors_multi [OF rng a len pos2_def own])
    with nb cb have "list_all (\<lambda>i. 0 \<le> i \<and> i < int (length batch)) (map snd es)
        \<and> list_all (\<lambda>i. 0 \<le> i \<and> i < int (length cell)) (map (\<lambda>i. batch ! nat i) (map snd es))
        \<and> vectors = map2 (\<lambda>v (off, n). vsub v (vmat off (cell ! nat (batch ! nat n))))
                    base2 (zip offs2 (map snd es))"
      by simp
    then have "periodic_shift d1' False batch cell (map snd es) base2 = Inr vectors"
      unfolding periodic_shift_multi [of d1' offs2 base2 "map snd es", OF same_fields(4) bl(2,4)] .
    with False show ?thesis by simp
  qed
  have ev': "edge_vectors d1' single batch pos2 (d1' CELL \<noteq> None) cell es = Inr vectors"
    using rng ps' same_fields(3) by (simp add: edge_vectors_Inr_iff lp base2_def)
  define r' where "r' = (d\<lparr>tensors := translate_atom (- 1) a k (tensors d)\<rparr>)
      \<lparr>tensors := d1'(EDGE_LENGTH \<mapsto> Nums (map vnorm vectors),
                      EDGE_VECTOR \<mapsto> Vecs vectors,
                      STRAIN \<mapsto> Mats (replicate (numel ptr - 1) mzero)),
       graph := (graph (d\<lparr>tensors := translate_atom (- 1) a k (tensors d)\<rparr>))(StrainLeaf := None)\<rparr>"
  have "compute_edge_data (d\<lparr>tensors := translate_atom (- 1) a k (tensors d)\<rparr>) cf cv = Inr r'"
    unfolding compute_edge_data_Inr_iff
    apply (rule exI [of _ pos2], rule exI [of _ es], rule exI [of _ d1'], rule exI [of _ single],
        rule exI [of _ batch], rule exI [of _ ptr], rule exI [of _ cell], rule exI [of _ vectors])
    using eb' same_fields f(6,8) c1 ev' lp es
    by (simp add: T r'_def keys_defs)
  moreover have "tensors r' EDGE_LENGTH = tensors r EDGE_LENGTH"
    "tensors r' EDGE_VECTOR = tensors r EDGE_VECTOR"
    by (simp_all add: r'_def f(10) keys_defs)
  ultimately show ?thesis by blast
qed

theorem periodic_shift_invariance_witness:
  "compute_edge_data example_batch True False = Inr example_result
   \<and> (\<exists>r'. compute_edge_data
              (example_batch\<lparr>tensors := translate_atom (- 1) 1 (1, 0, 0) (tensors example_batch)\<rparr>)
              True False = Inr r'
         \<and> tensors r' EDGE_LENGTH = tensors example_result EDGE_LENGTH
         \<and> tensors r' EDGE_VECTOR = tensors example_result EDGE_VECTOR)"
proof -
  have pos: "tensors example_batch POSITIONS = Some (Vecs [(0, 0, 0), (1, 0, 0), (0, 0, 0)])"
    and es: "tensors example_batch EDGE_INDEX = Some (Edges [(0, 1), (1, 0), (2, 2)])"
    and cell: "tensors example_batch CELL
        = Some (Mats [((2, 0, 0), (0, 2, 0), (0, 0, 2)), ((1, 0, 0), (0, 1, 0), (0, 0, 1))])"
    and offs: "tensors example_batch CELL_OFFSETS = Some (Vecs [(0, 0, 0), (1, 0, 0), (0, 1, 0)])"
    and batch: "tensors example_batch BATCH = Some (Longs [0, 0, 1])"
    by (simp_all add: example_batch_def keys_defs)
  have a: "(1::nat) < length [(0::real, 0::real, 0::real), (1, 0, 0), (0, 0, 0)]"
    and len: "length [(0::real, 0::real, 0::real), (1, 0, 0), (0, 1, 0)]
        = length [(0::int, 1::int), (1, 0), (2, 2)]"
    by simp_all
  have same: "\<forall>b. tensors example_batch BATCH = Some (Longs b)
      \<and> \<not> single_structure (tensors example_batch)
      \<longrightarrow> list_all (\<lambda>(c, n). b ! nat c = b ! nat n) [(0::int, 1::int), (1, 0), (2, 2)]"
    by (simp add: batch)
  from periodic_shift_invariance [OF example_run pos a es cell offs len same, of "(1, 0, 0)"]
    example_run
  show ?thesis by blast
qed


lemma sqrt_25: "sqrt 25 = 5"
  by (rule real_sqrt_unique) simp_all

lemma sqrt_9: "sqrt 9 = 3"
  by (rule real_sqrt_unique) simp_all

lemma claimed_shift_lengths:
  "edge_lengths (example_batch\<lparr>tensors := translate_atom 1 1 (1, 0, 0) (tensors example_batch)\<rparr>)
      True False = Inr (Some (Nums [5, 3, 1]))"
  by (simp add: edge_lengths_def example_batch_def translate_atom_def own_cell_def
      single_structure_def adjust_offset_def lattice_vec_def run_defs vzero_def mzero_def
      sqrt_25 sqrt_9)

text \<open>
  Claim C7 as stated adds \<open>k\<close> where the atom is the neighbor and subtracts it where
  the atom is the center (\<open>translate_atom 1\<close>). On \<open>example_batch\<close>, moving atom 1 by
  one lattice vector that way changes the edge lengths from \<open>[1, 1, 1]\<close> to
  \<open>[5, 3, 1]\<close>.
\<close>

theorem periodic_shift_sign_counterexample:
  "edge_lengths example_batch True False = Inr (Some (Nums [1, 1, 1]))
   \<and> edge_lengths (example_batch\<lparr>tensors := translate_atom 1 1 (1, 0, 0) (tensors example_batch)\<rparr>)
        True False = Inr (Some (Nums [5, 3, 1]))"
  using claimed_shift_lengths
  by (simp add: edge_lengths_def example_run example_result_def keys_defs)

section \<open>Properties of the model shell\<close>

lemma properties_dom:
  assumes "compute_properties d cf cv training (Some ks) = Inr results"
  shows "dom results = (if cf then {FORCES} else {}) \<union> (if cv then {VIRIAL} else {}) \<union> set ks"
    and "\<forall>k \<in> set ks. results k = tensors d k"
proof -
  from compute_properties_Inr [OF assms] obtain r0 kvs where
    dom0: "dom r0 = (if cf then {FORCES} else {}) \<union> (if cv then {VIRIAL} else {})"
    and g: "gather (tensors d) ks = Inr kvs"
    and r: "results = update_all r0 kvs"
    by (auto simp: extras_def)
  from gather_Inr [OF g] have fst: "map fst kvs = ks"
    and vals: "\<forall>(k, v) \<in> set kvs. tensors d k = Some v"
    by simp_all
  from fst have img: "fst ` set kvs = set ks"
    by (metis set_map)
  show "dom results = (if cf then {FORCES} else {}) \<union> (if cv then {VIRIAL} else {}) \<union> set ks"
    by (simp add: r dom_update_all dom0 img)
  show "\<forall>k \<in> set ks. results k = tensors d k"
    using update_all_consistent [OF vals] img r by blast
qed

text \<open>
  Claim C2, amended. Whenever \<open>forward\<close> returns, the keys of the mapping are
  \<open>forces\<close> when \<open>compute_forces\<close> is set, \<open>virial\<close> when \<open>compute_virial\<close> is set, and
  the declared extra properties, each holding the value the batch stores under that
  key after the learned stages. \<open>forward\<close> adds no \<open>energy\<close> key of its own: the
  mapping contains \<open>energy\<close> exactly when \<open>energy\<close> is a declared extra property.
\<close>

theorem forward_keys:
  assumes "forward module_list extra_properties training d cf cv = Inr results"
  shows "dom results = (if cf then {FORCES} else {}) \<union> (if cv then {VIRIAL} else {})
                         \<union> set extra_properties
         \<and> (TOTAL_ENERGY \<in> dom results \<longleftrightarrow> TOTAL_ENERGY \<in> set extra_properties)
         \<and> (\<exists>d1 d2. compute_edge_data d cf cv = Inr d1 \<and> run_modules module_list d1 = Inr d2
               \<and> (\<forall>k \<in> set extra_properties. results k = tensors d2 k))"
proof -
  from assms obtain d1 d2 where
    e: "compute_edge_data d cf cv = Inr d1" and m: "run_modules module_list d1 = Inr d2"
    and p: "compute_properties d2 cf cv training (Some extra_properties) = Inr results"
    unfolding forward_def ebind_Inr_iff by blast
  note pd = properties_dom [OF p]
  have "TOTAL_ENERGY \<in> dom results \<longleftrightarrow> TOTAL_ENERGY \<in> set extra_properties"
    unfolding pd(1) by (auto simp: keys_defs)
  with pd e m show ?thesis by blast
qed

theorem forward_keys_witness:
  "forward [example_stage] [TOTAL_ENERGY] True example_batch True False
     = Inr [FORCES \<mapsto> Vecs [(- 1, 0, 0), (1, 0, 0), (0, 0, 0)], TOTAL_ENERGY \<mapsto> Nums [5, 7]]
   \<and> dom [FORCES \<mapsto> Vecs [(- 1, 0, 0), (1, 0, 0), (0 :: real, 0 :: real, 0 :: real)],
           TOTAL_ENERGY \<mapsto> Nums [5, 7]] = {FORCES, TOTAL_ENERGY}"
proof -
  have run: "forward [example_stage] [TOTAL_ENERGY] True example_batch True False
     = Inr [FORCES \<mapsto> Vecs [(- 1, 0, 0), (1, 0, 0), (0, 0, 0)], TOTAL_ENERGY \<mapsto> Nums [5, 7]]"
    by (simp add: forward_def example_run ebind_def example_stage_def example_result_def
        compute_properties_def lookup_def forces_only_eq vjp_def update_all_def keys_defs vzero_def)
  from forward_keys [OF run] have
    "dom [FORCES \<mapsto> Vecs [(- 1, 0, 0), (1, 0, 0), (0 :: real, 0 :: real, 0 :: real)],
          TOTAL_ENERGY \<mapsto> Nums [5, 7]] = {FORCES} \<union> {} \<union> set [TOTAL_ENERGY]"
    by simp
  with run show ?thesis by auto
qed

text \<open>
  Claim C2 as stated says the mapping always contains \<open>energy\<close>. A model whose
  stages compute the energy but whose \<open>extra_properties\<close> is empty returns the forces
  only.
\<close>

theorem forward_energy_counterexample:
  "forward [example_stage] [] True example_batch True False
     = Inr [FORCES \<mapsto> Vecs [(- 1, 0, 0), (1, 0, 0), (0, 0, 0)]]
   \<and> TOTAL_ENERGY \<notin> dom [FORCES \<mapsto> Vecs [(- 1, 0, 0), (1, 0, 0), (0 :: real, 0 :: real, 0 :: real)]]"
  by (simp add: forward_def example_run ebind_def example_stage_def example_result_def
      compute_properties_def lookup_def forces_only_eq vjp_def update_all_def keys_defs vzero_def)

end
